theory Spec2Isabelle
  imports Complex_Main "HOL-Library.Multiset"
begin

section \<open>JavaScript numbers and their rendering\<close>

text \<open>
  A JavaScript \<open>number\<close> is a double. The handlers below only test finiteness, compare,
  take \<open>Math.floor\<close>, \<open>Math.min\<close> and \<open>Math.max\<close>; all of these are exact on doubles, so
  a finite value is modelled by the real number it denotes (negative zero is zero).
\<close>

datatype jsnum = NaN | PosInf | NegInf | Fin real

fun isFinite :: "jsnum \<Rightarrow> bool" where
  "isFinite (Fin r) = True"
| "isFinite v = False"

text \<open>Decimal rendering of an integer, as a template literal prints it.\<close>

fun show_nat :: "nat \<Rightarrow> string" where
  "show_nat n = (if n < 10 then [''0123456789'' ! n]
                 else show_nat (n div 10) @ [''0123456789'' ! (n mod 10)])"

declare show_nat.simps [simp del]

definition show_int :: "int \<Rightarrow> string" where
  "show_int i = (if i < 0 then ''-'' @ show_nat (nat (- i)) else show_nat (nat i))"

section \<open>background/index.ts: normalising the download request\<close>

definition DEFAULT_CONCURRENCY :: int where "DEFAULT_CONCURRENCY = 4"
definition DEFAULT_RETRY_ATTEMPTS :: int where "DEFAULT_RETRY_ATTEMPTS = 3"
definition DEFAULT_RETRY_BASE_DELAY_MS :: int where "DEFAULT_RETRY_BASE_DELAY_MS = 500"
definition DEFAULT_SEQUENTIAL_THROTTLE_MS :: int where "DEFAULT_SEQUENTIAL_THROTTLE_MS = 150"
definition MAX_THROTTLE_MS :: int where "MAX_THROTTLE_MS = 5000"

text \<open>
  \<open>normalizeConcurrency\<close> and \<open>normalizeThrottle\<close> first coerce their argument with
  \<open>Number(value)\<close>; the models take the coerced number \<open>parsed\<close>.
\<close>

definition normalizeConcurrency :: "jsnum \<Rightarrow> int" where
  "normalizeConcurrency parsed =
     (case parsed of
        Fin r \<Rightarrow> min 10 (max 1 \<lfloor>r\<rfloor>)
      | _ \<Rightarrow> DEFAULT_CONCURRENCY)"

definition normalizeThrottle :: "jsnum \<Rightarrow> int" where
  "normalizeThrottle parsed =
     (case parsed of
        Fin r \<Rightarrow> (if r < 0 then 0 else min \<lfloor>r\<rfloor> MAX_THROTTLE_MS)
      | _ \<Rightarrow> 0)"

text \<open>
  The message of the UI, with \<open>Number(options?.concurrency)\<close>, \<open>Boolean(options?.sequential)\<close>
  and \<open>Number(options?.throttleMs)\<close> already taken.
\<close>

record DownloadMessage =
  msg_concurrency :: jsnum
  msg_sequential :: bool
  msg_throttleMs :: jsnum

text \<open>The numeric options \<open>startDownload\<close> hands to \<open>DownloadService.run\<close>.\<close>

record RunSettings =
  concurrency :: int
  retryAttempts :: int
  retryBaseDelayMs :: int
  throttleDelayMs :: int

definition startDownload_settings :: "DownloadMessage \<Rightarrow> RunSettings" where
  "startDownload_settings options =
     (let isSequential = msg_sequential options;
          normalizedConcurrency = normalizeConcurrency (msg_concurrency options);
          conc = (if isSequential then 1 else normalizedConcurrency);
          throttleMs = normalizeThrottle (msg_throttleMs options);
          throttleDelay = (if conc = 1 then max throttleMs DEFAULT_SEQUENTIAL_THROTTLE_MS
                           else throttleMs)
      in \<lparr> concurrency = conc,
           retryAttempts = DEFAULT_RETRY_ATTEMPTS,
           retryBaseDelayMs = DEFAULT_RETRY_BASE_DELAY_MS,
           throttleDelayMs = throttleDelay \<rparr>)"

section \<open>shared/throttler.ts: the concurrency limiter\<close>

text \<open>What a \<open>throw\<close> or a rejected promise carries.\<close>

datatype thrown = Error string | NonRetryableError string | AbortError

text \<open>
  The closure state of \<open>createThrottler\<close> is \<open>activeCount\<close> and \<open>queue\<close>. A submitted unit
  is named by a number; \<open>queue\<close> holds the units whose \<open>run\<close> closure waits. Two history
  fields record what the code does with a unit and are never read by it: \<open>started\<close> lists
  the units in the order \<open>task()\<close> was called, \<open>running\<close> the started units whose
  \<open>finally\<close> handler has not run yet.
\<close>

record throttler =
  activeCount :: int
  queue :: "nat list"
  running :: "nat list"
  started :: "nat list"

text \<open>
  The guard rejects every non-integer as well; the model takes an integer capacity.
\<close>

definition createThrottler :: "int \<Rightarrow> thrown + throttler" where
  "createThrottler maxConcurrency =
     (if maxConcurrency < 1 then Inl (Error ''maxConcurrency must be a positive integer'')
      else Inr \<lparr> activeCount = 0, queue = [], running = [], started = [] \<rparr>)"

text \<open>The closure \<open>next\<close>: start the head of the queue if a slot is free.\<close>

definition throttler_next :: "int \<Rightarrow> throttler \<Rightarrow> throttler" where
  "throttler_next maxConcurrency s =
     (if activeCount s \<ge> maxConcurrency then s
      else case queue s of
             [] \<Rightarrow> s
           | task # rest \<Rightarrow>
               s \<lparr> queue := rest,
                   activeCount := activeCount s + 1,
                   running := running s @ [task],
                   started := started s @ [task] \<rparr>)"

text \<open>\<open>enqueue\<close>: push the unit's \<open>run\<close> closure, then call \<open>next\<close>.\<close>

definition enqueue :: "int \<Rightarrow> nat \<Rightarrow> throttler \<Rightarrow> throttler" where
  "enqueue maxConcurrency task s =
     throttler_next maxConcurrency (s \<lparr> queue := queue s @ [task] \<rparr>)"

text \<open>
  The \<open>finally\<close> handler of a started unit, which runs once the unit's promise has
  fulfilled or rejected: give the slot back, then call \<open>next\<close>.
\<close>

definition on_finally :: "int \<Rightarrow> nat \<Rightarrow> throttler \<Rightarrow> throttler" where
  "on_finally maxConcurrency task s =
     throttler_next maxConcurrency
       (s \<lparr> activeCount := activeCount s - 1, running := remove1 task (running s) \<rparr>)"

text \<open>
  What can happen to a limiter: a unit is submitted, or a started unit settles. The
  \<open>finally\<close> handler exists only for a unit that was started and has not settled, so
  a \<open>Settle\<close> of any other unit is no event at all and leaves the state as it is.
\<close>

datatype throttler_event = Enqueue nat | Settle nat

fun throttler_step :: "int \<Rightarrow> throttler \<Rightarrow> throttler_event \<Rightarrow> throttler" where
  "throttler_step m s (Enqueue task) = enqueue m task s"
| "throttler_step m s (Settle task) =
     (if task \<in> set (running s) then on_finally m task s else s)"

fun submitted :: "throttler_event list \<Rightarrow> nat list" where
  "submitted [] = []"
| "submitted (Enqueue task # evs) = task # submitted evs"
| "submitted (Settle task # evs) = submitted evs"

text \<open>The facts that hold of every state a limiter of capacity \<open>m\<close> reaches.\<close>

definition throttler_inv :: "int \<Rightarrow> throttler \<Rightarrow> bool" where
  "throttler_inv m s \<longleftrightarrow>
     activeCount s = int (length (running s))
     \<and> activeCount s \<le> m
     \<and> (queue s = [] \<or> activeCount s = m)"

section \<open>domain/lightshotClient.ts: the metadata collector\<close>

definition DEFAULT_BATCH_SIZE :: int where "DEFAULT_BATCH_SIZE = 20"

text \<open>
  An optional property is an \<open>option\<close>; \<open>None\<close> stands for \<open>undefined\<close> and \<open>null\<close>, which
  \<open>??\<close> and \<open>?.\<close> treat alike. \<open>nullish a b\<close> is \<open>a ?? b\<close>, and \<open>opt_chain obj f\<close> is
  \<open>obj?.f\<close>.
\<close>

definition nullish :: "'a option \<Rightarrow> 'a option \<Rightarrow> 'a option" where
  "nullish a b = (case a of None \<Rightarrow> b | Some x \<Rightarrow> Some x)"

definition opt_chain :: "'a option \<Rightarrow> ('a \<Rightarrow> 'b option) \<Rightarrow> 'b option" where
  "opt_chain obj f = (case obj of None \<Rightarrow> None | Some x \<Rightarrow> f x)"

text \<open>
  An item record of the response; \<open>p_date\<close> is \<open>screen.date\<close> when that is a string.
\<close>

record LightshotScreenPayload =
  p_id36 :: string
  p_url :: string
  p_date :: "string option"

text \<open>\<open>LightshotResponse\<close>: the top level, \<open>result\<close> and \<open>result.data\<close>.\<close>

record ResponseData =
  data_screens :: "LightshotScreenPayload list option"
  data_items :: "LightshotScreenPayload list option"
  data_next_id36 :: "string option"
  data_next_cursor :: "string option"
  data_next_token :: "string option"
  data_next :: "string option"

record ResponseResult =
  result_success :: "bool option"
  result_screens :: "LightshotScreenPayload list option"
  result_items :: "LightshotScreenPayload list option"
  result_next_id36 :: "string option"
  result_next_cursor :: "string option"
  result_next_token :: "string option"
  result_next :: "string option"
  result_message :: "string option"
  result_data :: "ResponseData option"

record ResponseError =
  error_message :: "string option"

record LightshotResponse =
  json_success :: "bool option"
  json_result :: "ResponseResult option"
  json_error :: "ResponseError option"
  json_screens :: "LightshotScreenPayload list option"
  json_items :: "LightshotScreenPayload list option"
  json_next_id36 :: "string option"
  json_next_cursor :: "string option"
  json_next_token :: "string option"
  json_next :: "string option"

record ScreenMeta =
  id36 :: string
  url :: string
  date :: string

record FetchScreensResult =
  screens :: "ScreenMeta list"
  nextCursor :: "string option"

text \<open>The object \<open>{}\<close> that stands in for a missing \<open>result\<close>.\<close>

definition empty_result :: ResponseResult where
  "empty_result =
     \<lparr> result_success = None, result_screens = None, result_items = None,
       result_next_id36 = None, result_next_cursor = None, result_next_token = None,
       result_next = None, result_message = None, result_data = None \<rparr>"

definition result_of :: "LightshotResponse \<Rightarrow> ResponseResult" where
  "result_of json = (case json_result json of None \<Rightarrow> empty_result | Some r \<Rightarrow> r)"

definition candidateScreens :: "LightshotResponse \<Rightarrow> LightshotScreenPayload list" where
  "candidateScreens json =
     (let result = result_of json in
      case nullish (result_screens result)
             (nullish (result_items result)
               (nullish (opt_chain (result_data result) data_screens)
                 (nullish (opt_chain (result_data result) data_items)
                   (nullish (json_screens json) (json_items json))))) of
        None \<Rightarrow> []
      | Some xs \<Rightarrow> xs)"

definition continuation :: "LightshotResponse \<Rightarrow> string option" where
  "continuation json =
     (let result = result_of json in
      nullish (result_next_id36 result)
        (nullish (result_next_cursor result)
          (nullish (result_next_token result)
            (nullish (result_next result)
              (nullish (opt_chain (result_data result) data_next_id36)
                (nullish (opt_chain (result_data result) data_next_cursor)
                  (nullish (opt_chain (result_data result) data_next_token)
                    (nullish (opt_chain (result_data result) data_next)
                      (nullish (json_next_id36 json)
                        (nullish (json_next_cursor json)
                          (nullish (json_next_token json) (json_next json))))))))))))"

definition failure_message :: "LightshotResponse \<Rightarrow> string" where
  "failure_message json =
     (case nullish (result_message (result_of json))
             (opt_chain (json_error json) error_message) of
        None \<Rightarrow> ''Unexpected Lightshot response''
      | Some m \<Rightarrow> m)"

text \<open>
  One item of the page; \<open>today\<close> is \<open>new Date().toLocaleDateString()\<close>, used when the
  record has no date string.
\<close>

definition to_meta :: "string \<Rightarrow> LightshotScreenPayload \<Rightarrow> ScreenMeta" where
  "to_meta today screen =
     \<lparr> id36 = p_id36 screen, url = p_url screen,
       date = (case p_date screen of Some d \<Rightarrow> d | None \<Rightarrow> today) \<rparr>"

text \<open>\<open>fetchPage\<close> from the parsed body on (lines 100 to 148).\<close>

definition fetchPage_json :: "string \<Rightarrow> LightshotResponse \<Rightarrow> thrown + FetchScreensResult" where
  "fetchPage_json today json =
     (let success = nullish (result_success (result_of json)) (json_success json) in
      if success = Some False \<and> candidateScreens json = [] then
        Inr \<lparr> screens = [], nextCursor = None \<rparr>
      else if success = Some False then
        Inl (Error (failure_message json))
      else
        Inr \<lparr> screens = map (to_meta today) (candidateScreens json),
              nextCursor = continuation json \<rparr>)"

text \<open>
  The request parameters, and what the transport answers: the promise of \<open>fetchImpl\<close>
  rejects, or a response arrives with a status and a body that \<open>response.json()\<close>
  parses or fails on.
\<close>

datatype start_id = StartNumber int | StartString string

record rpc_params =
  params_count :: int
  params_start_id36 :: start_id

definition request_params :: "string \<Rightarrow> int \<Rightarrow> rpc_params" where
  "request_params cursor batchSize =
     \<lparr> params_count = batchSize,
       params_start_id36 = (if cursor = ''0'' then StartNumber 0 else StartString cursor) \<rparr>"

datatype rpc_reply = Rejected thrown | Reply int "thrown + LightshotResponse"

definition response_ok :: "int \<Rightarrow> bool" where
  "response_ok status \<longleftrightarrow> 200 \<le> status \<and> status \<le> 299"

definition fetchPage :: "string \<Rightarrow> rpc_reply \<Rightarrow> thrown + FetchScreensResult" where
  "fetchPage today reply =
     (case reply of
        Rejected e \<Rightarrow> Inl e
      | Reply status body \<Rightarrow>
          if \<not> response_ok status then
            Inl (Error (''Lightshot API returned '' @ show_int status))
          else case body of
                 Inl e \<Rightarrow> Inl e
               | Inr json \<Rightarrow> fetchPage_json today json)"

text \<open>
  The world \<open>getAllScreens\<close> runs in: what the endpoint answers to the request of
  iteration \<open>i\<close>, whether the signal is aborted when iteration \<open>i\<close> tests it (never, when
  no signal is passed), and the current date.
\<close>

record collector_env =
  server :: "nat \<Rightarrow> rpc_params \<Rightarrow> rpc_reply"
  aborted_at :: "nat \<Rightarrow> bool"
  today :: string

text \<open>\<open>!nextCursor\<close>: the cursor is \<open>undefined\<close> or the empty string.\<close>

definition falsy :: "string option \<Rightarrow> bool" where
  "falsy c \<longleftrightarrow> c = None \<or> c = Some []"

text \<open>
  The \<open>while\<close> loop of \<open>getAllScreens\<close>, entered at iteration \<open>i\<close> with \<open>cursor\<close> and
  \<open>allScreens\<close>. The loop need not end (an endpoint may hand out fresh cursors forever),
  so the result is an \<open>option\<close>: \<open>None\<close> is a loop that never returns.
\<close>

partial_function (option) getAllScreens_loop ::
  "collector_env \<Rightarrow> int \<Rightarrow> nat \<Rightarrow> string \<Rightarrow> ScreenMeta list
     \<Rightarrow> (thrown + ScreenMeta list) option" where
  "getAllScreens_loop env batchSize i cursor allScreens =
     (if aborted_at env i then Some (Inr allScreens)
      else case fetchPage (today env) (server env i (request_params cursor batchSize)) of
             Inl e \<Rightarrow> Some (Inl e)
           | Inr page \<Rightarrow>
               if screens page = [] then Some (Inr allScreens)
               else if falsy (nextCursor page) then
                 (if id36 (last (screens page)) = cursor
                  then Some (Inr (allScreens @ screens page))
                  else getAllScreens_loop env batchSize (Suc i)
                         (id36 (last (screens page))) (allScreens @ screens page))
               else if nextCursor page = Some cursor
                 then Some (Inr (allScreens @ screens page))
               else getAllScreens_loop env batchSize (Suc i)
                      (the (nextCursor page)) (allScreens @ screens page))"

definition getAllScreens :: "collector_env \<Rightarrow> int \<Rightarrow> (thrown + ScreenMeta list) option" where
  "getAllScreens env batchSize = getAllScreens_loop env batchSize 0 ''0'' []"

subsection \<open>Vocabulary for the collector's properties\<close>

text \<open>
  The item list and the continuation cursor a response offers at each of its three levels:
  under \<open>result\<close>, under \<open>result.data\<close>, and at the top level.
\<close>

definition result_level_list :: "LightshotResponse \<Rightarrow> LightshotScreenPayload list option" where
  "result_level_list json =
     nullish (result_screens (result_of json)) (result_items (result_of json))"

definition data_level_list :: "LightshotResponse \<Rightarrow> LightshotScreenPayload list option" where
  "data_level_list json =
     nullish (opt_chain (result_data (result_of json)) data_screens)
             (opt_chain (result_data (result_of json)) data_items)"

definition top_level_list :: "LightshotResponse \<Rightarrow> LightshotScreenPayload list option" where
  "top_level_list json = nullish (json_screens json) (json_items json)"

definition result_level_cursor :: "LightshotResponse \<Rightarrow> string option" where
  "result_level_cursor json =
     nullish (result_next_id36 (result_of json))
       (nullish (result_next_cursor (result_of json))
         (nullish (result_next_token (result_of json)) (result_next (result_of json))))"

definition data_level_cursor :: "LightshotResponse \<Rightarrow> string option" where
  "data_level_cursor json =
     nullish (opt_chain (result_data (result_of json)) data_next_id36)
       (nullish (opt_chain (result_data (result_of json)) data_next_cursor)
         (nullish (opt_chain (result_data (result_of json)) data_next_token)
                  (opt_chain (result_data (result_of json)) data_next)))"

definition top_level_cursor :: "LightshotResponse \<Rightarrow> string option" where
  "top_level_cursor json =
     nullish (json_next_id36 json)
       (nullish (json_next_cursor json)
         (nullish (json_next_token json) (json_next json)))"

text \<open>The success flag the code looks at: \<open>result.success ?? json.success\<close>.\<close>

definition success_flag :: "LightshotResponse \<Rightarrow> bool option" where
  "success_flag json = nullish (result_success (result_of json)) (json_success json)"

text \<open>
  A page that makes the loop go on: it has items, and the cursor it leads to (its
  continuation cursor, or its last item's id when it has none) is not the current one.
\<close>

definition following_cursor :: "FetchScreensResult \<Rightarrow> string" where
  "following_cursor page =
     (if falsy (nextCursor page) then id36 (last (screens page)) else the (nextCursor page))"

definition keeps_going :: "string \<Rightarrow> FetchScreensResult \<Rightarrow> bool" where
  "keeps_going cursor page \<longleftrightarrow> screens page \<noteq> [] \<and> following_cursor page \<noteq> cursor"

text \<open>
  The cursor and the accumulated items at the start of iteration \<open>n\<close>, for a collection
  whose earlier iterations all went on.
\<close>

fun collector_state :: "collector_env \<Rightarrow> int \<Rightarrow> nat \<Rightarrow> string \<times> ScreenMeta list" where
  "collector_state env batchSize 0 = (''0'', [])"
| "collector_state env batchSize (Suc n) =
     (case collector_state env batchSize n of
        (cursor, acc) \<Rightarrow>
          (case fetchPage (today env) (server env n (request_params cursor batchSize)) of
             Inl e \<Rightarrow> (cursor, acc)
           | Inr page \<Rightarrow> (following_cursor page, acc @ screens page)))"

definition cursor_at :: "collector_env \<Rightarrow> int \<Rightarrow> nat \<Rightarrow> string" where
  "cursor_at env batchSize n = fst (collector_state env batchSize n)"

definition collected_at :: "collector_env \<Rightarrow> int \<Rightarrow> nat \<Rightarrow> ScreenMeta list" where
  "collected_at env batchSize n = snd (collector_state env batchSize n)"

definition page_at :: "collector_env \<Rightarrow> int \<Rightarrow> nat \<Rightarrow> thrown + FetchScreensResult" where
  "page_at env batchSize n =
     fetchPage (today env) (server env n (request_params (cursor_at env batchSize n) batchSize))"

section \<open>background/downloadService.ts: the download service\<close>

definition LARGE_GALLERY_THRESHOLD :: int where "LARGE_GALLERY_THRESHOLD = 800"
definition MIN_SEQUENTIAL_THROTTLE_MS :: int where "MIN_SEQUENTIAL_THROTTLE_MS = 150"

subsection \<open>Messages and effects\<close>

datatype log_level = Info | Warn

record ProgressPayload =
  progress_completed :: int
  progress_total :: int
  progress_currentId :: string
  progress_succeeded :: int
  progress_failed :: int

record DonePayload =
  done_total :: int
  done_failed :: int
  done_downloadId :: "int option"
  done_processed :: "int option"
  done_succeeded :: "int option"

datatype PortMessage =
    Progress ProgressPayload
  | Log log_level string
  | Status string
  | Start int int
  | Done DonePayload
  | ErrorMessage string
  | Cancelled

text \<open>
  What the service does to the outside, in the order it does it: a fetch of a URL, a
  \<open>delay\<close> that ran to its end (with the time it took), a message posted on the port,
  and a file added to the archive.
\<close>

datatype effect = Fetch string | Wait int | Send PortMessage | ZipFile string

text \<open>\<open>error instanceof Error ? error.message : String(error)\<close>\<close>

fun message_of :: "thrown \<Rightarrow> string" where
  "message_of (Error m) = m"
| "message_of (NonRetryableError m) = m"
| "message_of AbortError = ''AbortError''"

fun is_NonRetryable :: "thrown \<Rightarrow> bool" where
  "is_NonRetryable (NonRetryableError m) = True"
| "is_NonRetryable e = False"

subsection \<open>One item: \<open>delay\<close> and \<open>downloadWithRetry\<close>\<close>

text \<open>
  \<open>delay(ms, signal)\<close>: for \<open>ms \<le> 0\<close> it resolves at once; otherwise it resolves after
  \<open>ms\<close> milliseconds, unless the signal is aborted while it waits, which rejects it.
\<close>

definition delay :: "int \<Rightarrow> bool \<Rightarrow> (thrown + unit) \<times> effect list" where
  "delay ms aborted_meanwhile =
     (if ms \<le> 0 then (Inr (), [Wait 0])
      else if aborted_meanwhile then (Inl AbortError, [])
      else (Inr (), [Wait ms]))"

text \<open>
  What one attempt meets. The signal is already aborted at \<open>throwIfAborted\<close>; or it is
  aborted while the fetch or the body read is pending; or the fetch or the body read fails
  with an error message and the signal is not aborted; or a response arrives, with its
  status and with the \<open>code\<close> property of its JSON body (\<open>None\<close> when the body is no JSON
  object or has no string there) and a body that is read in full. The second component
  says whether the signal is aborted during the delay that follows the attempt. In the
  \<open>catch\<close> block \<open>signal.aborted\<close> holds exactly when the error caught is the abort.
\<close>

datatype fetch_outcome =
    AbortedBefore
  | AbortedDuring
  | Failed string
  | Response int "string option"

datatype attempt = Attempt (outcome: fetch_outcome) (abort_in_wait: bool)

definition entry_name :: "ScreenMeta \<Rightarrow> string" where
  "entry_name screen = ''screenshot_'' @ id36 screen @ ''.png''"

definition missing_upstream_message :: "ScreenMeta \<Rightarrow> string" where
  "missing_upstream_message screen =
     ''Lightshot cannot serve '' @ id36 screen
       @ '': upstream returned account trouble (image missing on server).''"

definition http_failure_message :: "ScreenMeta \<Rightarrow> int \<Rightarrow> string" where
  "http_failure_message screen status =
     ''Failed to fetch '' @ id36 screen @ '' ('' @ show_int status @ '')''"

text \<open>The \<open>try\<close> block of one attempt; \<open>Inr ()\<close> is its \<open>return true\<close>.\<close>

definition attempt_try :: "ScreenMeta \<Rightarrow> int \<Rightarrow> attempt \<Rightarrow> (thrown + unit) \<times> effect list" where
  "attempt_try screen throttle a =
     (case outcome a of
        AbortedBefore \<Rightarrow> (Inl AbortError, [])
      | AbortedDuring \<Rightarrow> (Inl AbortError, [Fetch (url screen)])
      | Failed m \<Rightarrow> (Inl (Error m), [Fetch (url screen)])
      | Response status code \<Rightarrow>
          if \<not> response_ok status then
            (if status = 403 \<and> code = Some ''account_trouble''
             then (Inl (NonRetryableError (missing_upstream_message screen)),
                   [Fetch (url screen)])
             else (Inl (Error (http_failure_message screen status)), [Fetch (url screen)]))
          else if throttle > 0 then
            (case delay throttle (abort_in_wait a) of
               (r, waited) \<Rightarrow> (r, [Fetch (url screen), ZipFile (entry_name screen)] @ waited))
          else (Inr (), [Fetch (url screen), ZipFile (entry_name screen)]))"

definition retry_message :: "ScreenMeta \<Rightarrow> int \<Rightarrow> int \<Rightarrow> string \<Rightarrow> string" where
  "retry_message screen n total_attempts m =
     ''Retry '' @ show_int n @ ''/'' @ show_int total_attempts @ '' for '' @ id36 screen
       @ '': '' @ m"

definition final_failure_message :: "ScreenMeta \<Rightarrow> string \<Rightarrow> string" where
  "final_failure_message screen m = ''Final failure for '' @ id36 screen @ '': '' @ m"

text \<open>
  The \<open>for\<close> loop from attempt \<open>n\<close> on. The result is \<open>Inr\<close> of the boolean returned, or
  \<open>Inl\<close> of what the function throws, with the effects in order.
\<close>

function downloadWithRetry_from ::
  "ScreenMeta \<Rightarrow> int \<Rightarrow> int \<Rightarrow> int \<Rightarrow> (int \<Rightarrow> attempt) \<Rightarrow> int
     \<Rightarrow> (thrown + bool) \<times> effect list" where
  "downloadWithRetry_from screen attempts_max base throttle env n =
     (if n \<le> attempts_max then
        (case attempt_try screen throttle (env n) of
           (Inr u, fx) \<Rightarrow> (Inr True, fx)
         | (Inl err, fx) \<Rightarrow>
             if err = AbortError then (Inl err, fx)
             else if n < attempts_max \<and> \<not> is_NonRetryable err then
               (case delay (base * 2 ^ nat (n - 1)) (abort_in_wait (env n)) of
                  (Inl e, waited) \<Rightarrow>
                    (Inl e,
                     fx @ [Send (Log Warn (retry_message screen n attempts_max (message_of err)))]
                        @ waited)
                | (Inr u, waited) \<Rightarrow>
                    (case downloadWithRetry_from screen attempts_max base throttle env (n + 1) of
                       (r, later) \<Rightarrow>
                         (r,
                          fx @ [Send (Log Warn
                                  (retry_message screen n attempts_max (message_of err)))]
                             @ waited @ later)))
             else
               (Inr False,
                fx @ [Send (Log Warn (final_failure_message screen (message_of err)))]))
      else (Inr False, []))"
  by pat_completeness auto
termination
  by (relation "measure (\<lambda>(screen, attempts_max, base, throttle, env, n).
                   nat (attempts_max + 1 - n))") auto

declare downloadWithRetry_from.simps [simp del]

definition downloadWithRetry ::
  "ScreenMeta \<Rightarrow> int \<Rightarrow> int \<Rightarrow> int \<Rightarrow> (int \<Rightarrow> attempt) \<Rightarrow> (thrown + bool) \<times> effect list" where
  "downloadWithRetry screen attempts_max base throttle env =
     downloadWithRetry_from screen attempts_max base throttle env 1"

subsection \<open>Vocabulary for the retry properties\<close>

text \<open>
  The fetches and waits of a trace, in order; the number of fetches is the number of
  attempts made.
\<close>

fun on_timeline :: "effect \<Rightarrow> bool" where
  "on_timeline (Fetch u) = True"
| "on_timeline (Wait ms) = True"
| "on_timeline e = False"

fun is_Fetch :: "effect \<Rightarrow> bool" where
  "is_Fetch (Fetch u) = True"
| "is_Fetch e = False"

definition timeline :: "effect list \<Rightarrow> effect list" where
  "timeline tr = filter on_timeline tr"

definition fetch_count :: "effect list \<Rightarrow> nat" where
  "fetch_count tr = length (filter is_Fetch tr)"

text \<open>
  An attempt that fails retryably: the fetch fails, or the response has a status outside
  200..299 and is not the 403 with the code \<open>account_trouble\<close>; nothing is cancelled.
\<close>

definition transient_failure :: "attempt \<Rightarrow> bool" where
  "transient_failure a \<longleftrightarrow>
     \<not> abort_in_wait a \<and>
     (case outcome a of
        Failed m \<Rightarrow> True
      | Response status code \<Rightarrow>
          \<not> response_ok status \<and> \<not> (status = 403 \<and> code = Some ''account_trouble'')
      | _ \<Rightarrow> False)"

text \<open>An attempt that succeeds: an ok response, and no cancellation in the throttle delay.\<close>

definition succeeds :: "int \<Rightarrow> attempt \<Rightarrow> bool" where
  "succeeds throttle a \<longleftrightarrow>
     (case outcome a of
        Response status code \<Rightarrow> response_ok status \<and> (throttle > 0 \<longrightarrow> \<not> abort_in_wait a)
      | _ \<Rightarrow> False)"

text \<open>The fetches and backoff waits of the attempts \<open>a\<close> to \<open>b\<close> when all of them fail retryably.\<close>

definition backoff_rounds :: "ScreenMeta \<Rightarrow> int \<Rightarrow> int \<Rightarrow> int \<Rightarrow> effect list" where
  "backoff_rounds screen base a b =
     concat (map (\<lambda>j. [Fetch (url screen), Wait (base * 2 ^ nat (j - 1))]) [a..b])"

subsection \<open>All items: \<open>downloadScreens\<close>\<close>

text \<open>
  The counters of \<open>downloadScreens\<close> and the effects so far. The counters are touched
  only in the last, synchronous piece of a unit (from the return of \<open>downloadWithRetry\<close>
  to \<open>emitProgress\<close>), which runs without interruption.
\<close>

record run_state =
  processed :: int
  succeeded :: int
  failed :: int
  trace :: "effect list"

definition emitProgress :: "int \<Rightarrow> string \<Rightarrow> run_state \<Rightarrow> run_state" where
  "emitProgress total_items current st =
     st \<lparr> trace := trace st @
            [Send (Progress \<lparr> progress_completed = processed st,
                              progress_total = total_items,
                              progress_currentId = current,
                              progress_succeeded = succeeded st,
                              progress_failed = failed st \<rparr>)] \<rparr>"

text \<open>
  The world of one unit: whether the signal is aborted when the unit starts, and what its
  attempts meet.
\<close>

record unit_env =
  aborted_at_start :: bool
  attempts :: "int \<Rightarrow> attempt"

definition giving_up_message :: "ScreenMeta \<Rightarrow> int \<Rightarrow> string" where
  "giving_up_message screen attempts_max =
     ''Giving up on '' @ id36 screen @ '' after '' @ show_int attempts_max @ '' attempts.''"

text \<open>
  The unit submitted for one screen. It throws (\<open>Some\<close>) or returns (\<open>None\<close>). The effects
  of its \<open>downloadWithRetry\<close> are entered in the trace when the unit finishes, so the
  trace lists the effects unit by unit and does not show how the fetches of units in
  flight at the same time interleave.
\<close>

definition unit_task ::
  "int \<Rightarrow> RunSettings \<Rightarrow> ScreenMeta \<Rightarrow> unit_env \<Rightarrow> run_state \<Rightarrow> thrown option \<times> run_state" where
  "unit_task total_items opts screen w st =
     (if aborted_at_start w then (Some AbortError, st)
      else case downloadWithRetry screen (retryAttempts opts) (retryBaseDelayMs opts)
                  (throttleDelayMs opts) (attempts w) of
             (Inl e, fx) \<Rightarrow> (Some e, st \<lparr> trace := trace st @ fx \<rparr>)
           | (Inr success, fx) \<Rightarrow>
               if success then
                 (None,
                  emitProgress total_items (id36 screen)
                    (st \<lparr> trace := trace st @ fx,
                          succeeded := succeeded st + 1,
                          processed := processed st + 1 \<rparr>))
               else
                 (None,
                  emitProgress total_items (id36 screen)
                    (st \<lparr> trace := trace st @ fx
                             @ [Send (Log Warn (giving_up_message screen (retryAttempts opts)))],
                          failed := failed st + 1,
                          processed := processed st + 1 \<rparr>)))"

text \<open>
  The units in the order in which they finish, up to the first one that throws (which
  rejects \<open>Promise.all\<close>).
\<close>

fun run_units ::
  "int \<Rightarrow> RunSettings \<Rightarrow> (ScreenMeta \<times> unit_env) list \<Rightarrow> run_state
     \<Rightarrow> thrown option \<times> run_state" where
  "run_units total_items opts [] st = (None, st)"
| "run_units total_items opts ((screen, w) # rest) st =
     (case unit_task total_items opts screen w st of
        (Some e, st') \<Rightarrow> (Some e, st')
      | (None, st') \<Rightarrow> run_units total_items opts rest st')"

text \<open>
  The world of \<open>downloadScreens\<close>: the units in the order in which they finish, each with
  its own world; whether the signal is aborted after \<open>Promise.all\<close>; and what
  \<open>chrome.downloads.download\<close> answers, an error message or a download id that may be
  undefined. The limiter decides when each unit starts; any order of finishing is allowed
  here, which covers every order the limiter can produce.
\<close>

record download_env =
  completion :: "(ScreenMeta \<times> unit_env) list"
  aborted_at_end :: bool
  sink :: "string + int option"

datatype run_outcome = Returned | Threw thrown | Pending

definition downloading_message :: "int \<Rightarrow> string" where
  "downloading_message n = ''Downloading '' @ show_int n @ '' screenshot(s)...''"

definition initial_state :: "int \<Rightarrow> run_state" where
  "initial_state n =
     \<lparr> processed = 0, succeeded = 0, failed = 0,
       trace = [Send (Status (downloading_message n))] \<rparr>"

text \<open>The state when the last unit of the world has finished or one has thrown.\<close>

definition units_done ::
  "ScreenMeta list \<Rightarrow> RunSettings \<Rightarrow> download_env \<Rightarrow> thrown option \<times> run_state" where
  "units_done items opts env =
     run_units (int (length items)) opts (completion env) (initial_state (int (length items)))"

text \<open>
  \<open>downloadScreens\<close>. \<open>Promise.all\<close> resolves once every submitted unit has returned;
  while some unit of \<open>items\<close> has not finished, the function is \<open>Pending\<close>.
\<close>

definition downloadScreens ::
  "ScreenMeta list \<Rightarrow> RunSettings \<Rightarrow> download_env \<Rightarrow> run_outcome \<times> effect list" where
  "downloadScreens items opts env =
     (case createThrottler (concurrency opts) of
        Inl e \<Rightarrow> (Threw e, [])
      | Inr throttler \<Rightarrow>
          (case units_done items opts env of
             (Some e, st) \<Rightarrow> (Threw e, trace st)
           | (None, st) \<Rightarrow>
               if mset (map fst (completion env)) \<noteq> mset items then (Pending, trace st)
               else if aborted_at_end env then (Threw AbortError, trace st)
               else
                 (case sink env of
                    Inl m \<Rightarrow>
                      (Returned,
                       trace st @ [Send (Status ''Packaging ZIP archive...''),
                                   Send (ErrorMessage m)])
                  | Inr downloadId \<Rightarrow>
                      (Returned,
                       trace st @ [Send (Status ''Packaging ZIP archive...''),
                                   Send (Done \<lparr> done_total = succeeded st,
                                                done_failed = failed st,
                                                done_downloadId = downloadId,
                                                done_processed = Some (processed st),
                                                done_succeeded = Some (succeeded st) \<rparr>)]))))"

subsection \<open>\<open>DownloadService.run\<close>\<close>

text \<open>
  The locals of \<open>run\<close> that the large-gallery policy reads and writes: the \<open>concurrency\<close>
  and \<open>throttleDelayMs\<close> it was called with, and \<open>effectiveConcurrency\<close> and
  \<open>effectiveThrottle\<close>.
\<close>

record run_locals =
  requested_concurrency :: int
  requested_throttleDelayMs :: int
  effectiveConcurrency :: int
  effectiveThrottle :: int

definition large_gallery_message :: "int \<Rightarrow> string" where
  "large_gallery_message n =
     ''Large gallery detected ('' @ show_int n
       @ '' screenshots). Switching to sequential mode for stability.''"

definition throttle_message :: "int \<Rightarrow> string" where
  "throttle_message ms = ''Throttle delay set to '' @ show_int ms @ '' ms between downloads.''"

text \<open>Lines 99 to 109: the effective settings for \<open>n\<close> resolved items.\<close>

definition derive_settings :: "int \<Rightarrow> int \<Rightarrow> int \<Rightarrow> run_locals \<times> effect list" where
  "derive_settings n conc throttle =
     (let l = \<lparr> requested_concurrency = conc, requested_throttleDelayMs = throttle,
                effectiveConcurrency = conc, effectiveThrottle = throttle \<rparr>
      in if n \<ge> LARGE_GALLERY_THRESHOLD \<and> conc > 1 then
           (l \<lparr> effectiveConcurrency := 1,
                effectiveThrottle := max throttle MIN_SEQUENTIAL_THROTTLE_MS \<rparr>,
            [Send (Status (large_gallery_message n))])
         else (l, []))"

text \<open>The \<open>catch\<close> block of \<open>run\<close>; \<open>signal.aborted\<close> holds when the abort was thrown.\<close>

definition run_catch :: "thrown \<Rightarrow> effect list" where
  "run_catch e =
     (if e = AbortError then [Send (Status ''Download cancelled.''), Send Cancelled]
      else [Send (ErrorMessage (message_of e))])"

text \<open>
  What \<open>run\<close> makes of the end of \<open>downloadScreens\<close>: an error thrown there is caught
  and reported; \<open>header\<close> is what \<open>run\<close> has sent before the call.
\<close>

definition after_download ::
  "effect list \<Rightarrow> run_outcome \<times> effect list \<Rightarrow> run_outcome \<times> effect list" where
  "after_download header res =
     (case res of
        (Threw e, tr) \<Rightarrow> (Returned, header @ tr @ run_catch e)
      | (r, tr) \<Rightarrow> (r, header @ tr))"

text \<open>The options \<open>run\<close> passes to \<open>downloadScreens\<close>.\<close>

definition effective_options :: "RunSettings \<Rightarrow> run_locals \<Rightarrow> RunSettings" where
  "effective_options opts l =
     opts \<lparr> concurrency := effectiveConcurrency l, throttleDelayMs := effectiveThrottle l \<rparr>"

text \<open>
  Lines 99 to 137, for a non-empty list of resolved screens: the policy, the throttle
  notice, the start message, \<open>downloadScreens\<close> with the effective settings, and the
  \<open>catch\<close> block.
\<close>

definition run_download ::
  "RunSettings \<Rightarrow> ScreenMeta list \<Rightarrow> download_env \<Rightarrow> run_outcome \<times> effect list" where
  "run_download opts resolved env =
     (case derive_settings (int (length resolved)) (concurrency opts) (throttleDelayMs opts) of
        (l, notice) \<Rightarrow>
          after_download
            (notice
               @ (if effectiveThrottle l > 0
                  then [Send (Log Info (throttle_message (effectiveThrottle l)))] else [])
               @ [Send (Start (int (length resolved)) (effectiveConcurrency l))])
            (downloadScreens resolved (effective_options opts l) env))"

text \<open>
  The world of \<open>run\<close>, and \<open>run\<close> itself. The screens are those of the message, or else
  the ones \<open>getAllScreens\<close> collects; \<open>None\<close> is a run whose collection never returns.
\<close>

record run_env =
  collector :: collector_env
  download :: download_env

definition run ::
  "RunSettings \<Rightarrow> ScreenMeta list option \<Rightarrow> run_env \<Rightarrow> (run_outcome \<times> effect list) option" where
  "run opts given env =
     (case (case given of
              Some resolved \<Rightarrow> Some (Inr resolved, [])
            | None \<Rightarrow>
                map_option (\<lambda>r. (r, [Send (Status ''Collecting gallery metadata...'')]))
                  (getAllScreens (collector env) DEFAULT_BATCH_SIZE)) of
        None \<Rightarrow> None
      | Some (Inl e, pre) \<Rightarrow> Some (Returned, pre @ run_catch e)
      | Some (Inr resolved, pre) \<Rightarrow>
          if resolved = [] then
            Some (Returned,
                  pre @ [Send (Status ''No screenshots found in your gallery.''),
                         Send (Done \<lparr> done_total = 0, done_failed = 0, done_downloadId = None,
                                      done_processed = None, done_succeeded = None \<rparr>)])
          else
            (case run_download opts resolved (download env) of
               (r, tr) \<Rightarrow> Some (r, pre @ tr)))"

subsection \<open>Vocabulary for the run's properties\<close>

fun is_Done :: "effect \<Rightarrow> bool" where
  "is_Done (Send (Done d)) = True"
| "is_Done e = False"

text \<open>An effect that is not a message, or is a log message.\<close>

fun log_only :: "effect \<Rightarrow> bool" where
  "log_only (Send (Log level m)) = True"
| "log_only (Send m) = False"
| "log_only e = True"

text \<open>An effect that is not a progress message, or is one whose counts add up.\<close>

fun progress_adds_up :: "effect \<Rightarrow> bool" where
  "progress_adds_up (Send (Progress p)) \<longleftrightarrow>
     progress_completed p = progress_succeeded p + progress_failed p"
| "progress_adds_up e = True"

text \<open>
  The state of a run in which the counters agree and every progress message sent so far
  adds up, with no done message sent yet.
\<close>

definition counters_ok :: "run_state \<Rightarrow> bool" where
  "counters_ok st \<longleftrightarrow>
     processed st = succeeded st + failed st
     \<and> (\<forall>e \<in> set (trace st). progress_adds_up e \<and> \<not> is_Done e)"

section \<open>Request normalisation: results\<close>

lemma normalizeConcurrency_range:
  "1 \<le> normalizeConcurrency v \<and> normalizeConcurrency v \<le> 10"
  by (cases v) (simp_all add: normalizeConcurrency_def DEFAULT_CONCURRENCY_def)

lemma normalizeThrottle_range:
  "0 \<le> normalizeThrottle v \<and> normalizeThrottle v \<le> 5000"
  by (cases v) (simp_all add: normalizeThrottle_def MAX_THROTTLE_MS_def)

text \<open>
  Claim C10. Whatever numbers the start message carries, the handler derives a concurrency
  that is 4 for a non-finite request and the floor of the request clamped to 1..10
  otherwise (1 when sequential is requested), and a throttle delay that is 0 for a
  non-finite or negative request and the floor capped at 5000 otherwise, raised to at
  least 150 ms when the effective concurrency is 1 (which sequential forces).
\<close>

theorem startDownload_settings_in_range:
  fixes options :: DownloadMessage
  defines "s \<equiv> startDownload_settings options"
  shows "(\<not> isFinite c \<longrightarrow> normalizeConcurrency c = 4)
       \<and> normalizeConcurrency (Fin r) = min 10 (max 1 \<lfloor>r\<rfloor>)
       \<and> (\<not> isFinite t \<or> (\<exists>x. t = Fin x \<and> x < 0) \<longrightarrow> normalizeThrottle t = 0)
       \<and> (0 \<le> r \<longrightarrow> normalizeThrottle (Fin r) = min \<lfloor>r\<rfloor> 5000)
       \<and> concurrency s = (if msg_sequential options then 1
                            else normalizeConcurrency (msg_concurrency options))
       \<and> 1 \<le> concurrency s \<and> concurrency s \<le> 10
       \<and> throttleDelayMs s = (if concurrency s = 1
                                then max (normalizeThrottle (msg_throttleMs options)) 150
                                else normalizeThrottle (msg_throttleMs options))
       \<and> 0 \<le> throttleDelayMs s \<and> throttleDelayMs s \<le> 5000
       \<and> (msg_sequential options \<or> concurrency s = 1 \<longrightarrow> 150 \<le> throttleDelayMs s)"
proof -
  have c: "\<not> isFinite c \<longrightarrow> normalizeConcurrency c = 4"
    by (cases c) (simp_all add: normalizeConcurrency_def DEFAULT_CONCURRENCY_def)
  have t: "\<not> isFinite t \<or> (\<exists>x. t = Fin x \<and> x < 0) \<longrightarrow> normalizeThrottle t = 0"
    by (cases t) (auto simp: normalizeThrottle_def)
  have t2: "0 \<le> r \<longrightarrow> normalizeThrottle (Fin r) = min \<lfloor>r\<rfloor> 5000"
    by (simp add: normalizeThrottle_def MAX_THROTTLE_MS_def)
  have cs: "concurrency s = (if msg_sequential options then 1
                            else normalizeConcurrency (msg_concurrency options))"
    by (simp add: s_def startDownload_settings_def Let_def)
  have ts: "throttleDelayMs s = (if concurrency s = 1
                                then max (normalizeThrottle (msg_throttleMs options)) 150
                                else normalizeThrottle (msg_throttleMs options))"
    by (simp add: s_def startDownload_settings_def Let_def DEFAULT_SEQUENTIAL_THROTTLE_MS_def)
  have cr: "1 \<le> concurrency s \<and> concurrency s \<le> 10"
    using normalizeConcurrency_range [of "msg_concurrency options"] by (auto simp: cs)
  have tr: "0 \<le> throttleDelayMs s \<and> throttleDelayMs s \<le> 5000"
    using normalizeThrottle_range [of "msg_throttleMs options"] by (auto simp: ts)
  have sq: "msg_sequential options \<or> concurrency s = 1 \<longrightarrow> 150 \<le> throttleDelayMs s"
    by (auto simp: cs ts)
  show ?thesis
    using c t t2 cs ts cr tr sq by (simp add: normalizeConcurrency_def)
qed

theorem startDownload_settings_in_range_witness:
  "normalizeConcurrency NaN = 4
   \<and> normalizeThrottle (Fin (- 3)) = 0
   \<and> normalizeThrottle (Fin (7 / 2)) = 3
   \<and> concurrency (startDownload_settings
        \<lparr> msg_concurrency = Fin 25, msg_sequential = True, msg_throttleMs = PosInf \<rparr>) = 1
   \<and> throttleDelayMs (startDownload_settings
        \<lparr> msg_concurrency = Fin 25, msg_sequential = True, msg_throttleMs = PosInf \<rparr>) = 150"
  using startDownload_settings_in_range
          [of NaN "7 / 2" "Fin (- 3)"
              "\<lparr> msg_concurrency = Fin 25, msg_sequential = True, msg_throttleMs = PosInf \<rparr>"]
  by (simp add: normalizeThrottle_def)

section \<open>The concurrency limiter: results\<close>

lemma throttler_next_inv:
  assumes "activeCount s = int (length (running s))" "activeCount s \<le> m"
    and "length (queue s) \<le> 1 \<or> m - 1 \<le> activeCount s"
  shows "throttler_inv m (throttler_next m s)"
  using assms by (auto simp: throttler_inv_def throttler_next_def split: list.splits)

lemma throttler_next_order:
  "started (throttler_next m s) @ queue (throttler_next m s) = started s @ queue s"
  by (simp add: throttler_next_def split: list.splits)

lemma throttler_step_inv:
  assumes "throttler_inv m s" "1 \<le> m"
  shows "throttler_inv m (throttler_step m s e)"
proof (cases e)
  case (Enqueue task)
  have "throttler_inv m (throttler_next m (s \<lparr> queue := queue s @ [task] \<rparr>))"
    using assms by (intro throttler_next_inv) (auto simp: throttler_inv_def)
  then show ?thesis
    using Enqueue by (simp add: enqueue_def)
next
  case (Settle task)
  show ?thesis
  proof (cases "task \<in> set (running s)")
    case True
    then have "0 < length (running s)"
      by (cases "running s") auto
    moreover from True have "length (remove1 task (running s)) = length (running s) - 1"
      by (simp add: length_remove1)
    ultimately have len:
      "int (length (remove1 task (running s))) = int (length (running s)) - 1"
      by linarith
    have "throttler_inv m (throttler_next m
            (s \<lparr> activeCount := activeCount s - 1, running := remove1 task (running s) \<rparr>))"
      using assms len by (intro throttler_next_inv) (auto simp: throttler_inv_def)
    then show ?thesis
      using True Settle by (simp add: on_finally_def)
  next
    case False
    then show ?thesis using assms Settle by simp
  qed
qed

lemma throttler_step_order:
  "started (throttler_step m s e) @ queue (throttler_step m s e)
     = started s @ queue s @ submitted [e]"
  by (cases e) (simp_all add: enqueue_def on_finally_def throttler_next_order)

lemma submitted_append: "submitted (evs @ evs') = submitted evs @ submitted evs'"
  by (induction evs rule: submitted.induct) simp_all

lemma throttler_reach:
  assumes "throttler_inv m s0" "1 \<le> m"
  shows "throttler_inv m (foldl (throttler_step m) s0 evs)
       \<and> started (foldl (throttler_step m) s0 evs) @ queue (foldl (throttler_step m) s0 evs)
           = started s0 @ queue s0 @ submitted evs"
proof (induction evs rule: rev_induct)
  case Nil
  then show ?case using assms by simp
next
  case (snoc e evs)
  then show ?case
    by (simp add: throttler_step_inv assms(2) throttler_step_order submitted_append)
qed

lemma throttler_step_release:
  assumes "length (running (throttler_step m s e)) < length (running s)"
  shows "\<exists>task. e = Settle task \<and> task \<in> set (running s)"
proof (cases e)
  case (Enqueue task)
  then show ?thesis
    using assms by (auto simp: enqueue_def throttler_next_def split: if_splits list.splits)
next
  case (Settle task)
  then show ?thesis
    using assms by (cases "task \<in> set (running s)") auto
qed

lemma on_finally_admits:
  assumes "throttler_inv m s" "task \<in> set (running s)" "queue s = u # q"
  shows "started (throttler_step m s (Settle task)) = started s @ [u]"
    and "queue (throttler_step m s (Settle task)) = q"
    and "running (throttler_step m s (Settle task)) = remove1 task (running s) @ [u]"
  using assms by (auto simp: on_finally_def throttler_next_def throttler_inv_def)

text \<open>
  Claim C1. For every integer \<open>N \<ge> 1\<close>, \<open>createThrottler N\<close> makes a limiter. After any
  sequence of submissions and settlements, at most \<open>N\<close> units are running (and
  \<open>activeCount\<close> is their number); the units started so far followed by the units still
  queued are the submitted units in submission order, so units start in the order they were
  submitted; a unit waits in the queue only while all \<open>N\<close> slots are taken; the number of
  running units drops only in the step in which a running unit settles; and when a running
  unit settles while units are queued, the head of the queue is started in that same step.
\<close>

theorem throttler_bounded_fifo:
  fixes N :: int and evs :: "throttler_event list" and e :: throttler_event
  assumes "1 \<le> N"
  shows "\<exists>s0. createThrottler N = Inr s0 \<and>
          (let s = foldl (throttler_step N) s0 evs in
             int (length (running s)) \<le> N
           \<and> activeCount s = int (length (running s))
           \<and> started s @ queue s = submitted evs
           \<and> (queue s \<noteq> [] \<longrightarrow> int (length (running s)) = N)
           \<and> (length (running (throttler_step N s e)) < length (running s)
                \<longrightarrow> (\<exists>task. e = Settle task \<and> task \<in> set (running s)))
           \<and> (\<forall>task u q. task \<in> set (running s) \<and> queue s = u # q \<longrightarrow>
                 started (throttler_step N s (Settle task)) = started s @ [u]
                 \<and> queue (throttler_step N s (Settle task)) = q
                 \<and> running (throttler_step N s (Settle task))
                     = remove1 task (running s) @ [u]))"
proof -
  define s0 where "s0 = \<lparr> activeCount = 0, queue = [], running = [], started = [] \<rparr>"
  define s where "s = foldl (throttler_step N) s0 evs"
  have made: "createThrottler N = Inr s0"
    using assms by (simp add: createThrottler_def s0_def)
  have inv0: "throttler_inv N s0"
    using assms by (simp add: throttler_inv_def s0_def)
  have reach: "throttler_inv N s" and order: "started s @ queue s = submitted evs"
    using throttler_reach [OF inv0 assms, of evs] by (simp_all add: s_def s0_def)
  have bound: "int (length (running s)) \<le> N" "activeCount s = int (length (running s))"
    and full: "queue s \<noteq> [] \<longrightarrow> int (length (running s)) = N"
    using reach by (auto simp: throttler_inv_def)
  have release: "length (running (throttler_step N s e)) < length (running s)
            \<longrightarrow> (\<exists>task. e = Settle task \<and> task \<in> set (running s))"
    using throttler_step_release by blast
  have admit: "\<forall>task u q. task \<in> set (running s) \<and> queue s = u # q \<longrightarrow>
             started (throttler_step N s (Settle task)) = started s @ [u]
             \<and> queue (throttler_step N s (Settle task)) = q
             \<and> running (throttler_step N s (Settle task)) = remove1 task (running s) @ [u]"
    using on_finally_admits [OF reach] by blast
  from bound order full release admit
  have "let s = foldl (throttler_step N) s0 evs in
             int (length (running s)) \<le> N
           \<and> activeCount s = int (length (running s))
           \<and> started s @ queue s = submitted evs
           \<and> (queue s \<noteq> [] \<longrightarrow> int (length (running s)) = N)
           \<and> (length (running (throttler_step N s e)) < length (running s)
                \<longrightarrow> (\<exists>task. e = Settle task \<and> task \<in> set (running s)))
           \<and> (\<forall>task u q. task \<in> set (running s) \<and> queue s = u # q \<longrightarrow>
                 started (throttler_step N s (Settle task)) = started s @ [u]
                 \<and> queue (throttler_step N s (Settle task)) = q
                 \<and> running (throttler_step N s (Settle task))
                     = remove1 task (running s) @ [u])"
    unfolding Let_def s_def [symmetric] by blast
  with made show ?thesis by blast
qed

theorem throttler_bounded_fifo_witness:
  "createThrottler 2 = Inr \<lparr> activeCount = 0, queue = [], running = [], started = [] \<rparr>
   \<and> running (foldl (throttler_step 2)
        \<lparr> activeCount = 0, queue = [], running = [], started = [] \<rparr>
        [Enqueue 7, Enqueue 8, Enqueue 9, Enqueue 10]) = [7, 8]
   \<and> queue (foldl (throttler_step 2)
        \<lparr> activeCount = 0, queue = [], running = [], started = [] \<rparr>
        [Enqueue 7, Enqueue 8, Enqueue 9, Enqueue 10]) = [9, 10]
   \<and> started (throttler_step 2 (foldl (throttler_step 2)
        \<lparr> activeCount = 0, queue = [], running = [], started = [] \<rparr>
        [Enqueue 7, Enqueue 8, Enqueue 9, Enqueue 10]) (Settle 8)) = [7, 8, 9]
   \<and> running (throttler_step 2 (foldl (throttler_step 2)
        \<lparr> activeCount = 0, queue = [], running = [], started = [] \<rparr>
        [Enqueue 7, Enqueue 8, Enqueue 9, Enqueue 10]) (Settle 8)) = [7, 9]
   \<and> running (throttler_step 2 (foldl (throttler_step 2)
        \<lparr> activeCount = 0, queue = [], running = [], started = [] \<rparr>
        [Enqueue 7]) (Settle 7)) = []"
  using throttler_bounded_fifo
          [of 2 "[Enqueue 7, Enqueue 8, Enqueue 9, Enqueue 10]" "Settle 8"]
        throttler_bounded_fifo [of 2 "[Enqueue 7]" "Settle 7"]
  by (simp add: createThrottler_def enqueue_def on_finally_def throttler_next_def)

section \<open>The metadata collector: results\<close>

lemma nullish_simps [simp]:
  "nullish None b = b" "nullish (Some x) b = Some x"
  by (simp_all add: nullish_def)

lemma opt_chain_simps [simp]:
  "opt_chain None f = None" "opt_chain (Some x) f = f x"
  by (simp_all add: opt_chain_def)

lemma candidateScreens_levels:
  "candidateScreens json =
     (case nullish (result_level_list json)
             (nullish (data_level_list json) (top_level_list json)) of
        None \<Rightarrow> [] | Some xs \<Rightarrow> xs)"
  by (simp add: candidateScreens_def result_level_list_def data_level_list_def
      top_level_list_def Let_def nullish_def split: option.splits)

lemma continuation_levels:
  "continuation json =
     nullish (result_level_cursor json)
       (nullish (data_level_cursor json) (top_level_cursor json))"
  by (simp add: continuation_def result_level_cursor_def data_level_cursor_def
      top_level_cursor_def Let_def nullish_def split: option.splits)

lemma getAllScreens_loop_step:
  assumes "\<not> aborted_at env i"
    and "fetchPage (today env) (server env i (request_params cursor bs)) = Inr page"
    and "keeps_going cursor page"
  shows "getAllScreens_loop env bs i cursor acc =
         getAllScreens_loop env bs (Suc i) (following_cursor page) (acc @ screens page)"
  using assms
  by (subst getAllScreens_loop.simps)
     (auto simp: keeps_going_def following_cursor_def falsy_def)

lemma getAllScreens_loop_reaches:
  assumes "\<forall>j<k. \<not> aborted_at env j
             \<and> (\<exists>page. page_at env bs j = Inr page \<and> keeps_going (cursor_at env bs j) page)"
  shows "getAllScreens env bs =
         getAllScreens_loop env bs k (cursor_at env bs k) (collected_at env bs k)"
  using assms
proof (induction k)
  case 0
  then show ?case
    by (simp add: getAllScreens_def cursor_at_def collected_at_def)
next
  case (Suc k)
  from Suc.prems obtain page where
    na: "\<not> aborted_at env k" and
    pg: "page_at env bs k = Inr page" and
    kg: "keeps_going (cursor_at env bs k) page"
    by auto
  have "getAllScreens env bs =
        getAllScreens_loop env bs k (cursor_at env bs k) (collected_at env bs k)"
    using Suc by simp
  also have "\<dots> = getAllScreens_loop env bs (Suc k) (following_cursor page)
                     (collected_at env bs k @ screens page)"
    using na pg kg by (intro getAllScreens_loop_step) (simp_all add: page_at_def)
  also have "following_cursor page = cursor_at env bs (Suc k)"
    using pg by (auto simp: cursor_at_def page_at_def split: prod.splits)
  also have "collected_at env bs k @ screens page = collected_at env bs (Suc k)"
    using pg by (auto simp: collected_at_def cursor_at_def page_at_def split: prod.splits)
  finally show ?case .
qed

text \<open>
  Claim C5. Take a collection whose iterations before the \<open>k\<close>-th all went on. Then at
  iteration \<open>k\<close>, with the current cursor and the items accumulated so far: if cancellation
  has been signalled, \<open>getAllScreens\<close> returns the accumulated items, without an error;
  otherwise, if the fetched page has no items, it returns the accumulated items; otherwise
  the page's items are accumulated, and if the page has no continuation cursor
  (\<open>undefined\<close> or empty) and its last item's id is the current cursor it returns, while
  with a different last id that id becomes the next cursor; and if the page has a
  continuation cursor equal to the current cursor it returns.
\<close>

theorem getAllScreens_stops_in_order:
  fixes env :: collector_env and bs :: int and k :: nat
  defines "cursor \<equiv> cursor_at env bs k" and "acc \<equiv> collected_at env bs k"
  assumes earlier: "\<forall>j<k. \<not> aborted_at env j
             \<and> (\<exists>page. page_at env bs j = Inr page \<and> keeps_going (cursor_at env bs j) page)"
  shows "(aborted_at env k \<longrightarrow> getAllScreens env bs = Some (Inr acc))
       \<and> (\<forall>page. \<not> aborted_at env k \<and> page_at env bs k = Inr page \<and> screens page = []
            \<longrightarrow> getAllScreens env bs = Some (Inr acc))
       \<and> (\<forall>page. \<not> aborted_at env k \<and> page_at env bs k = Inr page \<and> screens page \<noteq> []
              \<and> falsy (nextCursor page) \<and> id36 (last (screens page)) = cursor
            \<longrightarrow> getAllScreens env bs = Some (Inr (acc @ screens page)))
       \<and> (\<forall>page. \<not> aborted_at env k \<and> page_at env bs k = Inr page \<and> screens page \<noteq> []
              \<and> falsy (nextCursor page) \<and> id36 (last (screens page)) \<noteq> cursor
            \<longrightarrow> keeps_going cursor page
                \<and> cursor_at env bs (Suc k) = id36 (last (screens page)))
       \<and> (\<forall>page. \<not> aborted_at env k \<and> page_at env bs k = Inr page \<and> screens page \<noteq> []
              \<and> \<not> falsy (nextCursor page) \<and> nextCursor page = Some cursor
            \<longrightarrow> getAllScreens env bs = Some (Inr (acc @ screens page)))"
proof -
  have at_k: "getAllScreens env bs = getAllScreens_loop env bs k cursor acc"
    unfolding cursor_def acc_def using earlier by (rule getAllScreens_loop_reaches)
  have a: "aborted_at env k \<longrightarrow> getAllScreens env bs = Some (Inr acc)"
    unfolding at_k by (subst getAllScreens_loop.simps) simp
  have b: "\<not> aborted_at env k \<and> page_at env bs k = Inr page \<and> screens page = []
            \<longrightarrow> getAllScreens env bs = Some (Inr acc)" for page
    unfolding at_k
    by (subst getAllScreens_loop.simps) (auto simp: page_at_def cursor_def)
  have c: "\<not> aborted_at env k \<and> page_at env bs k = Inr page \<and> screens page \<noteq> []
              \<and> falsy (nextCursor page) \<and> id36 (last (screens page)) = cursor
            \<longrightarrow> getAllScreens env bs = Some (Inr (acc @ screens page))" for page
    unfolding at_k
    by (subst getAllScreens_loop.simps) (auto simp: page_at_def cursor_def)
  have c': "\<not> aborted_at env k \<and> page_at env bs k = Inr page \<and> screens page \<noteq> []
              \<and> falsy (nextCursor page) \<and> id36 (last (screens page)) \<noteq> cursor
            \<longrightarrow> keeps_going cursor page
                \<and> cursor_at env bs (Suc k) = id36 (last (screens page))" for page
    by (auto simp: keeps_going_def following_cursor_def cursor_def cursor_at_def page_at_def
        split: prod.splits)
  have d: "\<not> aborted_at env k \<and> page_at env bs k = Inr page \<and> screens page \<noteq> []
              \<and> \<not> falsy (nextCursor page) \<and> nextCursor page = Some cursor
            \<longrightarrow> getAllScreens env bs = Some (Inr (acc @ screens page))" for page
    unfolding at_k
    by (subst getAllScreens_loop.simps) (auto simp: page_at_def cursor_def)
  from a b c c' d show ?thesis by blast
qed

theorem getAllScreens_stops_in_order_witness:
  "getAllScreens
     \<lparr> server = (\<lambda>i params. Reply 200 (Inr
         \<lparr> json_success = None,
           json_result = Some
             \<lparr> result_success = Some True,
               result_screens = Some [\<lparr> p_id36 = ''a1'', p_url = ''u1'', p_date = Some ''d1'' \<rparr>],
               result_items = None, result_next_id36 = None, result_next_cursor = None,
               result_next_token = None, result_next = None, result_message = None,
               result_data = None \<rparr>,
           json_error = None, json_screens = None, json_items = None,
           json_next_id36 = None, json_next_cursor = None, json_next_token = None,
           json_next = None \<rparr>)),
       aborted_at = (\<lambda>i. False), today = ''d0'' \<rparr> 20
   = Some (Inr [\<lparr> id36 = ''a1'', url = ''u1'', date = ''d1'' \<rparr>,
                \<lparr> id36 = ''a1'', url = ''u1'', date = ''d1'' \<rparr>])
   \<and> getAllScreens
     \<lparr> server = (\<lambda>i params. Reply 200 (Inr
         \<lparr> json_success = None, json_result = None, json_error = None,
           json_screens = Some [\<lparr> p_id36 = ''a1'', p_url = ''u1'', p_date = None \<rparr>],
           json_items = None, json_next_id36 = Some ''0'', json_next_cursor = None,
           json_next_token = None, json_next = None \<rparr>)),
       aborted_at = (\<lambda>i. False), today = ''d0'' \<rparr> 20
   = Some (Inr [\<lparr> id36 = ''a1'', url = ''u1'', date = ''d0'' \<rparr>])
   \<and> getAllScreens
     \<lparr> server = (\<lambda>i params. Reply 200 (Inr
         \<lparr> json_success = None, json_result = None, json_error = None,
           json_screens = Some [], json_items = None, json_next_id36 = Some ''n1'',
           json_next_cursor = None, json_next_token = None, json_next = None \<rparr>)),
       aborted_at = (\<lambda>i. False), today = ''d0'' \<rparr> 20
   = Some (Inr [])
   \<and> getAllScreens
     \<lparr> server = (\<lambda>i params. Reply 200 (Inr
         \<lparr> json_success = None, json_result = None, json_error = None,
           json_screens = Some [], json_items = None, json_next_id36 = Some ''n1'',
           json_next_cursor = None, json_next_token = None, json_next = None \<rparr>)),
       aborted_at = (\<lambda>i. True), today = ''d0'' \<rparr> 20
   = Some (Inr [])"
  using getAllScreens_stops_in_order
    [where k = "Suc 0" and bs = 20 and env = "\<lparr> server = (\<lambda>i params. Reply 200 (Inr
         \<lparr> json_success = None,
           json_result = Some
             \<lparr> result_success = Some True,
               result_screens = Some [\<lparr> p_id36 = ''a1'', p_url = ''u1'', p_date = Some ''d1'' \<rparr>],
               result_items = None, result_next_id36 = None, result_next_cursor = None,
               result_next_token = None, result_next = None, result_message = None,
               result_data = None \<rparr>,
           json_error = None, json_screens = None, json_items = None,
           json_next_id36 = None, json_next_cursor = None, json_next_token = None,
           json_next = None \<rparr>)),
       aborted_at = (\<lambda>i. False), today = ''d0'' \<rparr>"]
    getAllScreens_stops_in_order
    [where k = 0 and bs = 20 and env = "\<lparr> server = (\<lambda>i params. Reply 200 (Inr
         \<lparr> json_success = None, json_result = None, json_error = None,
           json_screens = Some [\<lparr> p_id36 = ''a1'', p_url = ''u1'', p_date = None \<rparr>],
           json_items = None, json_next_id36 = Some ''0'', json_next_cursor = None,
           json_next_token = None, json_next = None \<rparr>)),
       aborted_at = (\<lambda>i. False), today = ''d0'' \<rparr>"]
    getAllScreens_stops_in_order
    [where k = 0 and bs = 20 and env = "\<lparr> server = (\<lambda>i params. Reply 200 (Inr
         \<lparr> json_success = None, json_result = None, json_error = None,
           json_screens = Some [], json_items = None, json_next_id36 = Some ''n1'',
           json_next_cursor = None, json_next_token = None, json_next = None \<rparr>)),
       aborted_at = (\<lambda>i. False), today = ''d0'' \<rparr>"]
    getAllScreens_stops_in_order
    [where k = 0 and bs = 20 and env = "\<lparr> server = (\<lambda>i params. Reply 200 (Inr
         \<lparr> json_success = None, json_result = None, json_error = None,
           json_screens = Some [], json_items = None, json_next_id36 = Some ''n1'',
           json_next_cursor = None, json_next_token = None, json_next = None \<rparr>)),
       aborted_at = (\<lambda>i. True), today = ''d0'' \<rparr>"]
  by (simp add: page_at_def cursor_at_def collected_at_def keeps_going_def
      following_cursor_def falsy_def fetchPage_def fetchPage_json_def response_ok_def
      candidateScreens_def continuation_def result_of_def empty_result_def to_meta_def
      Let_def)

text \<open>
  Claim C6 says that a response whose success flag is \<open>false\<close> and that carries items is
  returned as a successful page. The code raises an error there: the response below has the
  flag \<open>false\<close> and one item, and \<open>fetchPage\<close> throws.
\<close>

theorem fetchPage_failure_with_items_counterexample:
  "fetchPage ''d0'' (Reply 200 (Inr
     \<lparr> json_success = Some False, json_result = None, json_error = None,
       json_screens = Some [\<lparr> p_id36 = ''a1'', p_url = ''u1'', p_date = None \<rparr>],
       json_items = None, json_next_id36 = None, json_next_cursor = None,
       json_next_token = None, json_next = None \<rparr>))
   = Inl (Error ''Unexpected Lightshot response'')"
  by (simp add: fetchPage_def fetchPage_json_def response_ok_def candidateScreens_def
      failure_message_def result_of_def empty_result_def Let_def)

text \<open>
  Claim C6, amended. For every response with an ok status whose success flag
  (\<open>result.success ?? json.success\<close>) is \<open>false\<close>: if the normalised item list is empty,
  \<open>fetchPage\<close> returns an empty page without a cursor and raises nothing; if the item list
  is not empty, \<open>fetchPage\<close> throws an error carrying \<open>result.message\<close>, else
  \<open>error.message\<close>, else a fixed text.
\<close>

theorem fetchPage_success_false:
  assumes "response_ok status" and "success_flag json = Some False"
  shows "(candidateScreens json = [] \<longrightarrow>
            fetchPage dt (Reply status (Inr json))
              = Inr \<lparr> screens = [], nextCursor = None \<rparr>)
       \<and> (candidateScreens json \<noteq> [] \<longrightarrow>
            fetchPage dt (Reply status (Inr json)) = Inl (Error (failure_message json)))"
  using assms by (simp add: fetchPage_def fetchPage_json_def success_flag_def Let_def)

theorem fetchPage_success_false_witness:
  "fetchPage ''d0'' (Reply 200 (Inr
     \<lparr> json_success = Some False, json_result = None, json_error = None,
       json_screens = None, json_items = None, json_next_id36 = Some ''n1'',
       json_next_cursor = None, json_next_token = None, json_next = None \<rparr>))
     = Inr \<lparr> screens = [], nextCursor = None \<rparr>
   \<and> fetchPage ''d0'' (Reply 200 (Inr
     \<lparr> json_success = Some False, json_result = None,
       json_error = Some \<lparr> error_message = Some ''denied'' \<rparr>,
       json_screens = None,
       json_items = Some [\<lparr> p_id36 = ''a1'', p_url = ''u1'', p_date = None \<rparr>],
       json_next_id36 = None, json_next_cursor = None, json_next_token = None,
       json_next = None \<rparr>))
     = Inl (Error ''denied'')"
  using fetchPage_success_false [of 200
      "\<lparr> json_success = Some False, json_result = None, json_error = None,
       json_screens = None, json_items = None, json_next_id36 = Some ''n1'',
       json_next_cursor = None, json_next_token = None, json_next = None \<rparr>" "''d0''"]
    fetchPage_success_false [of 200
      "\<lparr> json_success = Some False, json_result = None,
       json_error = Some \<lparr> error_message = Some ''denied'' \<rparr>,
       json_screens = None,
       json_items = Some [\<lparr> p_id36 = ''a1'', p_url = ''u1'', p_date = None \<rparr>],
       json_next_id36 = None, json_next_cursor = None, json_next_token = None,
       json_next = None \<rparr>" "''d0''"]
  by (simp add: response_ok_def success_flag_def candidateScreens_def failure_message_def
      result_of_def empty_result_def Let_def)

text \<open>
  Claim C7 says that the top-level fields are probed first. The code probes them last: the
  response below carries one item list and cursor at the top level and another under
  \<open>result\<close>, and \<open>fetchPage\<close> returns the ones under \<open>result\<close>.
\<close>

theorem fetchPage_top_level_first_counterexample:
  "fetchPage ''d0'' (Reply 200 (Inr
     \<lparr> json_success = None,
       json_result = Some
         \<lparr> result_success = None,
           result_screens = Some [\<lparr> p_id36 = ''nested'', p_url = ''u2'', p_date = None \<rparr>],
           result_items = None, result_next_id36 = Some ''n2'', result_next_cursor = None,
           result_next_token = None, result_next = None, result_message = None,
           result_data = None \<rparr>,
       json_error = None,
       json_screens = Some [\<lparr> p_id36 = ''direct'', p_url = ''u1'', p_date = None \<rparr>],
       json_items = None, json_next_id36 = Some ''n1'', json_next_cursor = None,
       json_next_token = None, json_next = None \<rparr>))
   = Inr \<lparr> screens = [\<lparr> id36 = ''nested'', url = ''u2'', date = ''d0'' \<rparr>],
           nextCursor = Some ''n2'' \<rparr>"
  by (simp add: fetchPage_def fetchPage_json_def response_ok_def candidateScreens_def
      continuation_def result_of_def to_meta_def Let_def)

text \<open>
  Claim C7, amended. For every response with an ok status whose success flag is not
  \<open>false\<close>, \<open>fetchPage\<close> returns the selected item list and the selected continuation
  cursor, and both are selected in the same priority order: the fields nested under
  \<open>result\<close> first, then the fields nested under \<open>result.data\<close>, then the direct (top-level)
  fields; with no list anywhere the page is empty, with no cursor anywhere it has none.
\<close>

theorem fetchPage_probe_order:
  assumes "response_ok status" and "success_flag json \<noteq> Some False"
  shows "fetchPage dt (Reply status (Inr json))
           = Inr \<lparr> screens = map (to_meta dt) (candidateScreens json),
                   nextCursor = continuation json \<rparr>
       \<and> (\<forall>xs. result_level_list json = Some xs \<longrightarrow> candidateScreens json = xs)
       \<and> (\<forall>xs. result_level_list json = None \<and> data_level_list json = Some xs
             \<longrightarrow> candidateScreens json = xs)
       \<and> (\<forall>xs. result_level_list json = None \<and> data_level_list json = None
               \<and> top_level_list json = Some xs
             \<longrightarrow> candidateScreens json = xs)
       \<and> (result_level_list json = None \<and> data_level_list json = None
               \<and> top_level_list json = None
             \<longrightarrow> candidateScreens json = [])
       \<and> (\<forall>c. result_level_cursor json = Some c \<longrightarrow> continuation json = Some c)
       \<and> (result_level_cursor json = None
             \<longrightarrow> continuation json = nullish (data_level_cursor json) (top_level_cursor json))
       \<and> (\<forall>c. result_level_cursor json = None \<and> data_level_cursor json = Some c
             \<longrightarrow> continuation json = Some c)
       \<and> (result_level_cursor json = None \<and> data_level_cursor json = None
             \<longrightarrow> continuation json = top_level_cursor json)"
proof -
  have page: "fetchPage dt (Reply status (Inr json))
           = Inr \<lparr> screens = map (to_meta dt) (candidateScreens json),
                   nextCursor = continuation json \<rparr>"
    using assms by (auto simp: fetchPage_def fetchPage_json_def success_flag_def Let_def)
  show ?thesis
    using page by (simp add: candidateScreens_levels continuation_levels)
qed

theorem fetchPage_probe_order_witness:
  "fetchPage ''d0'' (Reply 200 (Inr
     \<lparr> json_success = Some True,
       json_result = Some
         \<lparr> result_success = None, result_screens = None, result_items = None,
           result_next_id36 = None, result_next_cursor = None,
           result_next_token = None, result_next = None, result_message = None,
           result_data = Some
             \<lparr> data_screens = None,
               data_items = Some [\<lparr> p_id36 = ''deep'', p_url = ''u3'', p_date = Some ''d3'' \<rparr>],
               data_next_id36 = None, data_next_cursor = None,
               data_next_token = Some ''n3'', data_next = None \<rparr> \<rparr>,
       json_error = None,
       json_screens = Some [\<lparr> p_id36 = ''direct'', p_url = ''u1'', p_date = None \<rparr>],
       json_items = None, json_next_id36 = Some ''n1'', json_next_cursor = None,
       json_next_token = None, json_next = None \<rparr>))
   = Inr \<lparr> screens = [\<lparr> id36 = ''deep'', url = ''u3'', date = ''d3'' \<rparr>],
           nextCursor = Some ''n3'' \<rparr>
   \<and> fetchPage ''d0'' (Reply 200 (Inr
     \<lparr> json_success = None,
       json_result = Some
         \<lparr> result_success = Some True, result_screens = None,
           result_items = Some [\<lparr> p_id36 = ''inner'', p_url = ''u2'', p_date = None \<rparr>],
           result_next_id36 = None, result_next_cursor = Some ''n2'',
           result_next_token = None, result_next = None, result_message = None,
           result_data = Some
             \<lparr> data_screens = Some [\<lparr> p_id36 = ''deep'', p_url = ''u3'', p_date = None \<rparr>],
               data_items = None, data_next_id36 = Some ''n3'', data_next_cursor = None,
               data_next_token = None, data_next = None \<rparr> \<rparr>,
       json_error = None, json_screens = None, json_items = None,
       json_next_id36 = None, json_next_cursor = None, json_next_token = None,
       json_next = None \<rparr>))
   = Inr \<lparr> screens = [\<lparr> id36 = ''inner'', url = ''u2'', date = ''d0'' \<rparr>],
           nextCursor = Some ''n2'' \<rparr>
   \<and> fetchPage ''d0'' (Reply 200 (Inr
     \<lparr> json_success = None, json_result = None, json_error = None,
       json_screens = None,
       json_items = Some [\<lparr> p_id36 = ''direct'', p_url = ''u1'', p_date = None \<rparr>],
       json_next_id36 = None, json_next_cursor = None, json_next_token = None,
       json_next = Some ''n1'' \<rparr>))
   = Inr \<lparr> screens = [\<lparr> id36 = ''direct'', url = ''u1'', date = ''d0'' \<rparr>],
           nextCursor = Some ''n1'' \<rparr>"
  using fetchPage_probe_order [of 200
     "\<lparr> json_success = Some True,
       json_result = Some
         \<lparr> result_success = None, result_screens = None, result_items = None,
           result_next_id36 = None, result_next_cursor = None,
           result_next_token = None, result_next = None, result_message = None,
           result_data = Some
             \<lparr> data_screens = None,
               data_items = Some [\<lparr> p_id36 = ''deep'', p_url = ''u3'', p_date = Some ''d3'' \<rparr>],
               data_next_id36 = None, data_next_cursor = None,
               data_next_token = Some ''n3'', data_next = None \<rparr> \<rparr>,
       json_error = None,
       json_screens = Some [\<lparr> p_id36 = ''direct'', p_url = ''u1'', p_date = None \<rparr>],
       json_items = None, json_next_id36 = Some ''n1'', json_next_cursor = None,
       json_next_token = None, json_next = None \<rparr>" "''d0''"]
    fetchPage_probe_order [of 200
     "\<lparr> json_success = None,
       json_result = Some
         \<lparr> result_success = Some True, result_screens = None,
           result_items = Some [\<lparr> p_id36 = ''inner'', p_url = ''u2'', p_date = None \<rparr>],
           result_next_id36 = None, result_next_cursor = Some ''n2'',
           result_next_token = None, result_next = None, result_message = None,
           result_data = Some
             \<lparr> data_screens = Some [\<lparr> p_id36 = ''deep'', p_url = ''u3'', p_date = None \<rparr>],
               data_items = None, data_next_id36 = Some ''n3'', data_next_cursor = None,
               data_next_token = None, data_next = None \<rparr> \<rparr>,
       json_error = None, json_screens = None, json_items = None,
       json_next_id36 = None, json_next_cursor = None, json_next_token = None,
       json_next = None \<rparr>" "''d0''"]
    fetchPage_probe_order [of 200
     "\<lparr> json_success = None, json_result = None, json_error = None,
       json_screens = None,
       json_items = Some [\<lparr> p_id36 = ''direct'', p_url = ''u1'', p_date = None \<rparr>],
       json_next_id36 = None, json_next_cursor = None, json_next_token = None,
       json_next = Some ''n1'' \<rparr>" "''d0''"]
  by (simp add: response_ok_def success_flag_def result_level_list_def data_level_list_def
      top_level_list_def result_level_cursor_def data_level_cursor_def top_level_cursor_def
      result_of_def empty_result_def to_meta_def)

section \<open>The retrying fetcher: results\<close>

lemma timeline_append [simp]: "timeline (xs @ ys) = timeline xs @ timeline ys"
  by (simp add: timeline_def)

lemma fetch_count_append [simp]: "fetch_count (xs @ ys) = fetch_count xs + fetch_count ys"
  by (simp add: fetch_count_def)

lemma timeline_simps [simp]:
  "timeline [] = []"
  "timeline (Fetch u # tr) = Fetch u # timeline tr"
  "timeline (Wait ms # tr) = Wait ms # timeline tr"
  "timeline (Send m # tr) = timeline tr"
  "timeline (ZipFile f # tr) = timeline tr"
  by (simp_all add: timeline_def)

lemma fetch_count_simps [simp]:
  "fetch_count [] = 0"
  "fetch_count (Fetch u # tr) = Suc (fetch_count tr)"
  "fetch_count (Wait ms # tr) = fetch_count tr"
  "fetch_count (Send m # tr) = fetch_count tr"
  "fetch_count (ZipFile f # tr) = fetch_count tr"
  by (simp_all add: fetch_count_def)

lemma attempt_try_transient:
  assumes "transient_failure a"
  shows "\<exists>err. attempt_try screen throttle a = (Inl err, [Fetch (url screen)])
           \<and> err \<noteq> AbortError \<and> \<not> is_NonRetryable err"
  using assms
  by (cases a; cases "outcome a")
     (auto simp: transient_failure_def attempt_try_def)

lemma attempt_try_fetches: "fetch_count (snd (attempt_try screen throttle a)) \<le> 1"
  by (cases a; cases "outcome a")
     (auto simp: attempt_try_def delay_def split: prod.splits)

lemma delay_fetches: "fetch_count (snd (delay ms ab)) = 0"
  by (simp add: delay_def)

lemma retry_step:
  assumes "n < R" "transient_failure (env n)" "0 \<le> base"
  shows "fst (downloadWithRetry_from screen R base throttle env n)
           = fst (downloadWithRetry_from screen R base throttle env (n + 1))"
    and "timeline (snd (downloadWithRetry_from screen R base throttle env n))
           = [Fetch (url screen), Wait (base * 2 ^ nat (n - 1))]
             @ timeline (snd (downloadWithRetry_from screen R base throttle env (n + 1)))"
    and "fetch_count (snd (downloadWithRetry_from screen R base throttle env n))
           = Suc (fetch_count (snd (downloadWithRetry_from screen R base throttle env (n + 1))))"
    and "\<exists>pre. snd (downloadWithRetry_from screen R base throttle env n)
           = pre @ snd (downloadWithRetry_from screen R base throttle env (n + 1))"
proof -
  from attempt_try_transient [OF assms(2)] obtain err where
    t: "attempt_try screen throttle (env n) = (Inl err, [Fetch (url screen)])"
    and e: "err \<noteq> AbortError" "\<not> is_NonRetryable err"
    by blast
  have na: "\<not> abort_in_wait (env n)"
    using assms(2) by (simp add: transient_failure_def)
  have d: "delay (base * 2 ^ nat (n - 1)) (abort_in_wait (env n))
             = (Inr (), [Wait (base * 2 ^ nat (n - 1))])"
    using na assms(3) by (auto simp: delay_def mult_le_0_iff)
  have eq: "downloadWithRetry_from screen R base throttle env n
        = (fst (downloadWithRetry_from screen R base throttle env (n + 1)),
           [Fetch (url screen),
            Send (Log Warn (retry_message screen n R (message_of err))),
            Wait (base * 2 ^ nat (n - 1))]
           @ snd (downloadWithRetry_from screen R base throttle env (n + 1)))"
    using assms(1) t e d
    by (subst downloadWithRetry_from.simps) (simp split: prod.splits)
  show "fst (downloadWithRetry_from screen R base throttle env n)
           = fst (downloadWithRetry_from screen R base throttle env (n + 1))"
    by (subst eq) simp
  show "timeline (snd (downloadWithRetry_from screen R base throttle env n))
           = [Fetch (url screen), Wait (base * 2 ^ nat (n - 1))]
             @ timeline (snd (downloadWithRetry_from screen R base throttle env (n + 1)))"
    by (subst eq) simp
  show "fetch_count (snd (downloadWithRetry_from screen R base throttle env n))
           = Suc (fetch_count (snd (downloadWithRetry_from screen R base throttle env (n + 1))))"
    by (subst eq) simp
  show "\<exists>pre. snd (downloadWithRetry_from screen R base throttle env n)
           = pre @ snd (downloadWithRetry_from screen R base throttle env (n + 1))"
    by (subst eq) (simp del: append.simps)
qed

lemma backoff_rounds_empty [simp]: "b < a \<Longrightarrow> backoff_rounds screen base a b = []"
  by (simp add: backoff_rounds_def)

lemma backoff_rounds_first:
  "a \<le> b \<Longrightarrow> backoff_rounds screen base a b
     = [Fetch (url screen), Wait (base * 2 ^ nat (a - 1))] @ backoff_rounds screen base (a + 1) b"
  by (simp add: backoff_rounds_def upto_rec1)

lemma retry_skip:
  assumes "0 \<le> base" "k \<le> R"
    and "\<forall>j. a \<le> j \<and> j < k \<longrightarrow> transient_failure (env j)"
    and "d = nat (k - a)" "a \<le> k"
  shows "fst (downloadWithRetry_from screen R base throttle env a)
           = fst (downloadWithRetry_from screen R base throttle env k)
       \<and> timeline (snd (downloadWithRetry_from screen R base throttle env a))
           = backoff_rounds screen base a (k - 1)
             @ timeline (snd (downloadWithRetry_from screen R base throttle env k))
       \<and> int (fetch_count (snd (downloadWithRetry_from screen R base throttle env a)))
           = (k - a)
             + int (fetch_count (snd (downloadWithRetry_from screen R base throttle env k)))
       \<and> (\<exists>pre. snd (downloadWithRetry_from screen R base throttle env a)
           = pre @ snd (downloadWithRetry_from screen R base throttle env k))"
  using assms(3-5)
proof (induction d arbitrary: a)
  case 0
  then have "a = k" by simp
  then show ?case by simp
next
  case (Suc d)
  then have lt: "a < k" and tf: "transient_failure (env a)" by auto
  have aR: "a < R" using lt assms(2) by simp
  note step = retry_step [where n = a and R = R and env = env and base = base
      and screen = screen and throttle = throttle, OF aR tf assms(1)]
  have IH: "fst (downloadWithRetry_from screen R base throttle env (a + 1))
           = fst (downloadWithRetry_from screen R base throttle env k)
       \<and> timeline (snd (downloadWithRetry_from screen R base throttle env (a + 1)))
           = backoff_rounds screen base (a + 1) (k - 1)
             @ timeline (snd (downloadWithRetry_from screen R base throttle env k))
       \<and> int (fetch_count (snd (downloadWithRetry_from screen R base throttle env (a + 1))))
           = (k - (a + 1))
             + int (fetch_count (snd (downloadWithRetry_from screen R base throttle env k)))
       \<and> (\<exists>pre. snd (downloadWithRetry_from screen R base throttle env (a + 1))
           = pre @ snd (downloadWithRetry_from screen R base throttle env k))"
    using Suc.prems lt by (intro Suc.IH) auto
  have br: "backoff_rounds screen base a (k - 1)
     = [Fetch (url screen), Wait (base * 2 ^ nat (a - 1))]
       @ backoff_rounds screen base (a + 1) (k - 1)"
    using lt by (intro backoff_rounds_first) simp
  from step(4) IH
  have "\<exists>pre. snd (downloadWithRetry_from screen R base throttle env a)
           = pre @ snd (downloadWithRetry_from screen R base throttle env k)"
    by (metis append.assoc)
  then show ?case
    using step(1-3) IH br by simp
qed

lemma success_now:
  assumes "n \<le> R" "succeeds throttle (env n)"
  shows "downloadWithRetry_from screen R base throttle env n
           = (Inr True, [Fetch (url screen), ZipFile (entry_name screen)]
                @ (if throttle > 0 then [Wait throttle] else []))"
  using assms
  by (subst downloadWithRetry_from.simps; cases "env n"; cases "outcome (env n)")
     (auto simp: succeeds_def attempt_try_def delay_def)

lemma last_failure:
  assumes "transient_failure (env R)"
  shows "\<exists>m. downloadWithRetry_from screen R base throttle env R
           = (Inr False, [Fetch (url screen), Send (Log Warn (final_failure_message screen m))])"
proof -
  from attempt_try_transient [OF assms] obtain err where
    t: "attempt_try screen throttle (env R) = (Inl err, [Fetch (url screen)])"
    and e: "err \<noteq> AbortError"
    by blast
  show ?thesis
    using t e by (subst downloadWithRetry_from.simps) auto
qed

lemma fetch_count_bound:
  "int (fetch_count (snd (downloadWithRetry_from screen R base throttle env n)))
     \<le> max 0 (R + 1 - n)"
proof (induction screen R base throttle env n rule: downloadWithRetry_from.induct)
  case (1 screen R base throttle env n)
  show ?case
  proof (cases "n \<le> R")
    case False
    then show ?thesis
      by (subst downloadWithRetry_from.simps) simp
  next
    case True
    obtain r fx where t: "attempt_try screen throttle (env n) = (r, fx)"
      by (cases "attempt_try screen throttle (env n)")
    have fx: "fetch_count fx \<le> 1"
      using attempt_try_fetches [of screen throttle "env n"] t by simp
    show ?thesis
    proof (cases r)
      case (Inr u)
      then show ?thesis
        using True t fx by (subst downloadWithRetry_from.simps) simp
    next
      case (Inl err)
      obtain dr waited where d: "delay (base * 2 ^ nat (n - 1)) (abort_in_wait (env n)) = (dr, waited)"
        by (cases "delay (base * 2 ^ nat (n - 1)) (abort_in_wait (env n))")
      have w: "fetch_count waited = 0"
        using delay_fetches [of "base * 2 ^ nat (n - 1)" "abort_in_wait (env n)"] d by simp
      show ?thesis
      proof (cases "err \<noteq> AbortError \<and> n < R \<and> \<not> is_NonRetryable err \<and> dr = Inr ()")
        case False
        then show ?thesis
          using True t fx Inl d w
          by (subst downloadWithRetry_from.simps) (auto split: sum.splits)
      next
        case go: True
        have "int (fetch_count (snd (downloadWithRetry_from screen R base throttle env (n + 1))))
                \<le> max 0 (R + 1 - (n + 1))"
          using True t Inl go d by (intro "1.IH") auto
        then show ?thesis
          using True t fx Inl d w go
          by (subst downloadWithRetry_from.simps) (auto split: prod.splits)
      qed
    qed
  qed
qed


text \<open>
  Claim C3. With \<open>retryAttempts \<ge> 1\<close> and a base delay that is not negative,
  \<open>downloadWithRetry\<close> makes at most \<open>retryAttempts\<close> fetches. If the attempts before the
  \<open>k\<close>-th all fail retryably, the fetches and waits up to attempt \<open>k\<close> are one fetch per
  attempt, each followed by a wait of \<open>retryBaseDelayMs * 2 ^ (j - 1)\<close> milliseconds after
  attempt \<open>j\<close>. If moreover attempt \<open>k \<le> retryAttempts\<close> succeeds, the function returns true
  after exactly \<open>k\<close> fetches (then come only the archive entry and the throttle delay). If
  all \<open>retryAttempts\<close> attempts fail retryably, it returns false after exactly
  \<open>retryAttempts\<close> fetches, with no wait after the last one, and its last message is the
  final-failure log.
\<close>

theorem downloadWithRetry_attempts_and_backoff:
  fixes screen :: ScreenMeta and R base throttle k :: int and env :: "int \<Rightarrow> attempt"
  defines "res \<equiv> downloadWithRetry screen R base throttle env"
  assumes "1 \<le> R" and "0 \<le> base"
  shows "int (fetch_count (snd res)) \<le> R
       \<and> (1 \<le> k \<and> k \<le> R \<and> (\<forall>j. 1 \<le> j \<and> j < k \<longrightarrow> transient_failure (env j))
            \<longrightarrow> timeline (snd res)
                  = backoff_rounds screen base 1 (k - 1)
                    @ timeline (snd (downloadWithRetry_from screen R base throttle env k)))
       \<and> (1 \<le> k \<and> k \<le> R \<and> (\<forall>j. 1 \<le> j \<and> j < k \<longrightarrow> transient_failure (env j))
              \<and> succeeds throttle (env k)
            \<longrightarrow> fst res = Inr True
                \<and> int (fetch_count (snd res)) = k
                \<and> timeline (snd res)
                    = backoff_rounds screen base 1 (k - 1) @ [Fetch (url screen)]
                      @ (if throttle > 0 then [Wait throttle] else []))
       \<and> ((\<forall>j. 1 \<le> j \<and> j \<le> R \<longrightarrow> transient_failure (env j))
            \<longrightarrow> fst res = Inr False
                \<and> int (fetch_count (snd res)) = R
                \<and> timeline (snd res) = backoff_rounds screen base 1 (R - 1) @ [Fetch (url screen)]
                \<and> (\<exists>m. last (snd res) = Send (Log Warn (final_failure_message screen m))))"
proof -
  have bound: "int (fetch_count (snd res)) \<le> R"
    using fetch_count_bound [of screen R base throttle env 1] assms(2)
    by (simp add: res_def downloadWithRetry_def)
  have skip: "fst res = fst (downloadWithRetry_from screen R base throttle env k')
       \<and> timeline (snd res)
           = backoff_rounds screen base 1 (k' - 1)
             @ timeline (snd (downloadWithRetry_from screen R base throttle env k'))
       \<and> int (fetch_count (snd res))
           = (k' - 1)
             + int (fetch_count (snd (downloadWithRetry_from screen R base throttle env k')))
       \<and> (\<exists>pre. snd res = pre @ snd (downloadWithRetry_from screen R base throttle env k'))"
    if "1 \<le> k'" "k' \<le> R" "\<forall>j. 1 \<le> j \<and> j < k' \<longrightarrow> transient_failure (env j)" for k'
    unfolding res_def downloadWithRetry_def
    using assms(3) that(2) that(3) _ that(1) by (rule retry_skip) simp
  have prefix: "1 \<le> k \<and> k \<le> R \<and> (\<forall>j. 1 \<le> j \<and> j < k \<longrightarrow> transient_failure (env j))
            \<longrightarrow> timeline (snd res)
                  = backoff_rounds screen base 1 (k - 1)
                    @ timeline (snd (downloadWithRetry_from screen R base throttle env k))"
    using skip [of k] by blast
  have success: "1 \<le> k \<and> k \<le> R \<and> (\<forall>j. 1 \<le> j \<and> j < k \<longrightarrow> transient_failure (env j))
              \<and> succeeds throttle (env k)
            \<longrightarrow> fst res = Inr True
                \<and> int (fetch_count (snd res)) = k
                \<and> timeline (snd res)
                    = backoff_rounds screen base 1 (k - 1) @ [Fetch (url screen)]
                      @ (if throttle > 0 then [Wait throttle] else [])"
  proof (intro impI, elim conjE)
    assume k: "1 \<le> k" "k \<le> R" "\<forall>j. 1 \<le> j \<and> j < k \<longrightarrow> transient_failure (env j)"
      and s: "succeeds throttle (env k)"
    note now = success_now [where n = k and R = R and env = env and throttle = throttle
      and screen = screen and base = base, OF k(2) s]
    show "fst res = Inr True
                \<and> int (fetch_count (snd res)) = k
                \<and> timeline (snd res)
                    = backoff_rounds screen base 1 (k - 1) @ [Fetch (url screen)]
                      @ (if throttle > 0 then [Wait throttle] else [])"
      using skip [OF k] by (simp add: now)
  qed
  have exhausted: "(\<forall>j. 1 \<le> j \<and> j \<le> R \<longrightarrow> transient_failure (env j))
            \<longrightarrow> fst res = Inr False
                \<and> int (fetch_count (snd res)) = R
                \<and> timeline (snd res) = backoff_rounds screen base 1 (R - 1) @ [Fetch (url screen)]
                \<and> (\<exists>m. last (snd res) = Send (Log Warn (final_failure_message screen m)))"
  proof
    assume all: "\<forall>j. 1 \<le> j \<and> j \<le> R \<longrightarrow> transient_failure (env j)"
    then have "transient_failure (env R)" using assms(2) by simp
    from last_failure [where env = env and R = R and screen = screen and base = base
      and throttle = throttle, OF this] obtain m where
      m: "downloadWithRetry_from screen R base throttle env R
           = (Inr False, [Fetch (url screen), Send (Log Warn (final_failure_message screen m))])"
      by blast
    have "\<forall>j. 1 \<le> j \<and> j < R \<longrightarrow> transient_failure (env j)"
      using all by simp
    from skip [OF assms(2) order_refl this]
    show "fst res = Inr False
                \<and> int (fetch_count (snd res)) = R
                \<and> timeline (snd res) = backoff_rounds screen base 1 (R - 1) @ [Fetch (url screen)]
                \<and> (\<exists>m. last (snd res) = Send (Log Warn (final_failure_message screen m)))"
      by (auto simp: m)
  qed
  from bound prefix success exhausted show ?thesis by blast
qed


theorem downloadWithRetry_attempts_and_backoff_witness:
  "fst (downloadWithRetry \<lparr> id36 = ''a1'', url = ''u1'', date = ''d1'' \<rparr> 3 500 150
          (\<lambda>j. if j = 1 then Attempt (Failed ''offline'') False
               else if j = 2 then Attempt (Response 503 None) False
               else Attempt (Response 200 None) False)) = Inr True
   \<and> timeline (snd (downloadWithRetry \<lparr> id36 = ''a1'', url = ''u1'', date = ''d1'' \<rparr> 3 500 150
          (\<lambda>j. if j = 1 then Attempt (Failed ''offline'') False
               else if j = 2 then Attempt (Response 503 None) False
               else Attempt (Response 200 None) False)))
       = [Fetch ''u1'', Wait 500, Fetch ''u1'', Wait 1000, Fetch ''u1'', Wait 150]
   \<and> fst (downloadWithRetry \<lparr> id36 = ''a1'', url = ''u1'', date = ''d1'' \<rparr> 2 500 0
          (\<lambda>j. Attempt (Response 503 None) False)) = Inr False
   \<and> timeline (snd (downloadWithRetry \<lparr> id36 = ''a1'', url = ''u1'', date = ''d1'' \<rparr> 2 500 0
          (\<lambda>j. Attempt (Response 503 None) False)))
       = [Fetch ''u1'', Wait 500, Fetch ''u1'']"
proof -
  let ?env = "\<lambda>j::int. if j = 1 then Attempt (Failed ''offline'') False
               else if j = 2 then Attempt (Response 503 None) False
               else Attempt (Response 200 None) False"
  have h: "\<forall>j. 1 \<le> j \<and> j < 3 \<longrightarrow> transient_failure (?env j)"
  proof (intro allI impI)
    fix j :: int
    assume "1 \<le> j \<and> j < 3"
    then have "j = 1 \<or> j = 2" by arith
    then show "transient_failure (?env j)"
      by (auto simp: transient_failure_def response_ok_def)
  qed
  have s: "succeeds 150 (?env 3)"
    by (simp add: succeeds_def response_ok_def)
  have a: "\<forall>j::int. 1 \<le> j \<and> j \<le> 2
             \<longrightarrow> transient_failure (Attempt (Response 503 None) False)"
    by (simp add: transient_failure_def response_ok_def)
  show ?thesis
    using downloadWithRetry_attempts_and_backoff
            [where screen = "\<lparr> id36 = ''a1'', url = ''u1'', date = ''d1'' \<rparr>"
               and R = 3 and base = 500 and throttle = 150 and k = 3 and env = "?env",
             THEN conjunct2, THEN conjunct2, THEN conjunct1] h s
          downloadWithRetry_attempts_and_backoff
            [where screen = "\<lparr> id36 = ''a1'', url = ''u1'', date = ''d1'' \<rparr>"
               and R = 2 and base = 500 and throttle = 0 and k = 1
               and env = "\<lambda>j. Attempt (Response 503 None) False",
             THEN conjunct2, THEN conjunct2, THEN conjunct2] a
    by (simp add: backoff_rounds_def upto_rec1)
qed

section \<open>The download run: results\<close>

text \<open>The equations that evaluate a run in a given world.\<close>

lemmas eval_defs =
  run_def run_download_def after_download_def derive_settings_def effective_options_def
  downloadScreens_def units_done_def initial_state_def unit_task_def emitProgress_def
  downloadWithRetry_def downloadWithRetry_from.simps attempt_try_def delay_def
  response_ok_def createThrottler_def run_catch_def
  LARGE_GALLERY_THRESHOLD_def MIN_SEQUENTIAL_THROTTLE_MS_def
  downloading_message_def giving_up_message_def final_failure_message_def
  retry_message_def http_failure_message_def missing_upstream_message_def
  throttle_message_def large_gallery_message_def entry_name_def
  show_int_def show_nat.simps Let_def

lemma delay_log_only: "\<forall>e \<in> set (snd (delay ms ab)). log_only e"
  by (simp add: delay_def)

lemma attempt_try_log_only: "\<forall>e \<in> set (snd (attempt_try screen throttle a)). log_only e"
  by (cases a; cases "outcome a")
     (auto simp: attempt_try_def delay_def split: prod.splits)

lemma downloadWithRetry_from_log_only:
  "\<forall>e \<in> set (snd (downloadWithRetry_from screen R base throttle env n)). log_only e"
proof (induction screen R base throttle env n rule: downloadWithRetry_from.induct)
  case (1 screen R base throttle env n)
  obtain r fx where t: "attempt_try screen throttle (env n) = (r, fx)"
    by (cases "attempt_try screen throttle (env n)")
  have fx: "\<forall>e \<in> set fx. log_only e"
    using attempt_try_log_only [of screen throttle "env n"] t by simp
  obtain dr waited where
    d: "delay (base * 2 ^ nat (n - 1)) (abort_in_wait (env n)) = (dr, waited)"
    by (cases "delay (base * 2 ^ nat (n - 1)) (abort_in_wait (env n))")
  have w: "\<forall>e \<in> set waited. log_only e"
    using delay_log_only [of "base * 2 ^ nat (n - 1)" "abort_in_wait (env n)"] d by simp
  show ?case
  proof (cases "n \<le> R \<and> (\<exists>err. r = Inl err \<and> err \<noteq> AbortError \<and> n < R
                  \<and> \<not> is_NonRetryable err) \<and> dr = Inr ()")
    case False
    then show ?thesis
      using t fx d w
      by (subst downloadWithRetry_from.simps) (auto split: sum.splits)
  next
    case True
    then obtain err where err: "r = Inl err" "err \<noteq> AbortError" "n < R" "\<not> is_NonRetryable err"
      and dr: "dr = Inr ()" and nR: "n \<le> R"
      by auto
    have "\<forall>e \<in> set (snd (downloadWithRetry_from screen R base throttle env (n + 1))). log_only e"
      using nR t err d dr by (intro "1.IH") auto
    then show ?thesis
      using t fx d w err dr nR
      by (subst downloadWithRetry_from.simps) (auto split: prod.splits)
  qed
qed

lemma log_only_progress: "log_only e \<Longrightarrow> progress_adds_up e"
  by (cases e rule: log_only.cases) simp_all

lemma log_only_not_Done: "log_only e \<Longrightarrow> \<not> is_Done e"
  by (cases e rule: log_only.cases) simp_all

lemma unit_task_counters:
  assumes "counters_ok st" "unit_task total_items opts screen w st = (r, st')"
  shows "counters_ok st'"
proof -
  have fx: "\<forall>e \<in> set (snd (downloadWithRetry screen (retryAttempts opts)
              (retryBaseDelayMs opts) (throttleDelayMs opts) (attempts w))).
              progress_adds_up e \<and> \<not> is_Done e"
    using downloadWithRetry_from_log_only log_only_progress log_only_not_Done
    unfolding downloadWithRetry_def by blast
  show ?thesis
    using assms fx
    by (auto simp: unit_task_def counters_ok_def emitProgress_def
        split: if_splits prod.splits sum.splits)
qed

lemma unit_task_returns:
  assumes "unit_task total_items opts screen w st = (None, st')"
  shows "processed st' = processed st + 1"
    and "last (trace st') = Send (Progress
           \<lparr> progress_completed = processed st', progress_total = total_items,
             progress_currentId = id36 screen, progress_succeeded = succeeded st',
             progress_failed = failed st' \<rparr>)"
  using assms
  by (auto simp: unit_task_def emitProgress_def split: if_splits prod.splits sum.splits)

lemma run_units_snoc:
  "run_units total_items opts (units @ [(screen, w)]) st =
     (case run_units total_items opts units st of
        (Some e, st') \<Rightarrow> (Some e, st')
      | (None, st') \<Rightarrow> unit_task total_items opts screen w st')"
proof (induction units arbitrary: st)
  case Nil
  show ?case by (auto split: prod.splits option.splits)
next
  case (Cons u units)
  then show ?case by (cases u) (auto split: prod.splits option.splits)
qed

lemma run_units_counters:
  assumes "counters_ok st" "run_units total_items opts units st = (r, st')"
  shows "counters_ok st'"
  using assms
proof (induction units arbitrary: st)
  case Nil
  then show ?case by simp
next
  case (Cons u units)
  obtain screen w where u: "u = (screen, w)" by (cases u)
  obtain r1 st1 where t: "unit_task total_items opts screen w st = (r1, st1)"
    by (cases "unit_task total_items opts screen w st")
  have ok1: "counters_ok st1"
    using unit_task_counters [OF Cons.prems(1) t] .
  show ?case
  proof (cases r1)
    case None
    then show ?thesis
      using Cons.prems(2) u t Cons.IH [OF ok1] by simp
  next
    case (Some e)
    then show ?thesis
      using Cons.prems(2) u t ok1 by simp
  qed
qed

lemma run_units_processed:
  assumes "run_units total_items opts units st = (None, st')"
  shows "processed st' = processed st + int (length units)"
  using assms
proof (induction units arbitrary: st)
  case Nil
  then show ?case by simp
next
  case (Cons u units)
  obtain screen w where u: "u = (screen, w)" by (cases u)
  obtain r1 st1 where t: "unit_task total_items opts screen w st = (r1, st1)"
    by (cases "unit_task total_items opts screen w st")
  from Cons.prems u t have r1: "r1 = None"
    by (cases r1) auto
  have "processed st1 = processed st + 1"
    using unit_task_returns(1) t r1 by blast
  moreover have "processed st' = processed st1 + int (length units)"
    using Cons.prems u t r1 by (intro Cons.IH) simp
  ultimately show ?case by simp
qed

lemma run_units_last:
  assumes "run_units total_items opts (units @ [(screen, w)]) st = (None, st')"
  shows "last (trace st') = Send (Progress
           \<lparr> progress_completed = processed st', progress_total = total_items,
             progress_currentId = id36 screen, progress_succeeded = succeeded st',
             progress_failed = failed st' \<rparr>)"
proof -
  obtain r1 st1 where p: "run_units total_items opts units st = (r1, st1)"
    by (cases "run_units total_items opts units st")
  from assms p have "unit_task total_items opts screen w st1 = (None, st')"
    by (cases r1) (auto simp: run_units_snoc)
  then show ?thesis by (rule unit_task_returns(2))
qed

lemma counters_ok_initial: "counters_ok (initial_state n)"
  by (simp add: counters_ok_def initial_state_def)

lemma downloadScreens_Returned:
  assumes "downloadScreens items opts env = (Returned, tr)"
  shows "\<exists>st. units_done items opts env = (None, st)
           \<and> mset (map fst (completion env)) = mset items
           \<and> \<not> aborted_at_end env
           \<and> tr = trace st @ [Send (Status ''Packaging ZIP archive...''),
                   (case sink env of
                      Inl m \<Rightarrow> Send (ErrorMessage m)
                    | Inr downloadId \<Rightarrow>
                        Send (Done \<lparr> done_total = succeeded st, done_failed = failed st,
                                     done_downloadId = downloadId,
                                     done_processed = Some (processed st),
                                     done_succeeded = Some (succeeded st) \<rparr>))]"
  using assms
  by (auto simp: downloadScreens_def split: sum.splits prod.splits option.splits if_splits)

lemma units_done_counters:
  assumes "units_done items opts env = (r, st)"
  shows "counters_ok st"
  using assms counters_ok_initial run_units_counters unfolding units_done_def by blast

lemma units_done_processed:
  assumes "units_done items opts env = (None, st)"
    and "mset (map fst (completion env)) = mset items"
  shows "processed st = int (length items)"
proof -
  have "length (completion env) = length items"
    using assms(2) mset_eq_length by fastforce
  moreover have "processed st = 0 + int (length (completion env))"
    using run_units_processed [OF assms(1) [unfolded units_done_def]]
    by (simp add: initial_state_def)
  ultimately show ?thesis by simp
qed

text \<open>
  Claim C2. In every run of \<open>downloadScreens\<close>, after any number of the units have
  finished the counters satisfy \<open>processed = succeeded + failed\<close>, and so does every
  progress message sent so far; the progress message a unit sends is the last message at
  that moment and carries the counters as they then are, with \<open>completed = processed\<close>.
  When \<open>downloadScreens\<close> returns (every unit has finished, nothing was cancelled),
  \<open>processed\<close> is the number of items.
\<close>

theorem progress_counters_consistent:
  fixes items :: "ScreenMeta list" and opts :: RunSettings and env :: download_env
  defines "n \<equiv> int (length items)"
  shows "(\<forall>units rest r st.
            completion env = units @ rest
            \<and> run_units n opts units (initial_state n) = (r, st)
          \<longrightarrow> processed st = succeeded st + failed st
              \<and> (\<forall>p. Send (Progress p) \<in> set (trace st)
                    \<longrightarrow> progress_completed p = progress_succeeded p + progress_failed p))
       \<and> (\<forall>units screen w rest st.
            completion env = units @ (screen, w) # rest
            \<and> run_units n opts (units @ [(screen, w)]) (initial_state n) = (None, st)
          \<longrightarrow> last (trace st) = Send (Progress
                  \<lparr> progress_completed = processed st, progress_total = n,
                    progress_currentId = id36 screen, progress_succeeded = succeeded st,
                    progress_failed = failed st \<rparr>))
       \<and> (\<forall>tr. downloadScreens items opts env = (Returned, tr)
          \<longrightarrow> processed (snd (units_done items opts env)) = n
              \<and> succeeded (snd (units_done items opts env))
                  + failed (snd (units_done items opts env)) = n)"
proof -
  have a: "processed st = succeeded st + failed st
              \<and> (\<forall>p. Send (Progress p) \<in> set (trace st)
                    \<longrightarrow> progress_completed p = progress_succeeded p + progress_failed p)"
    if "run_units n opts units (initial_state n) = (r, st)" for units r st
  proof -
    have ok: "counters_ok st"
      using counters_ok_initial that by (rule run_units_counters)
    then have "\<forall>p. Send (Progress p) \<in> set (trace st) \<longrightarrow> progress_adds_up (Send (Progress p))"
      unfolding counters_ok_def by blast
    then show ?thesis using ok by (simp add: counters_ok_def)
  qed
  have b: "last (trace st) = Send (Progress
                  \<lparr> progress_completed = processed st, progress_total = n,
                    progress_currentId = id36 screen, progress_succeeded = succeeded st,
                    progress_failed = failed st \<rparr>)"
    if "run_units n opts (units @ [(screen, w)]) (initial_state n) = (None, st)"
    for units screen w st
    using that by (rule run_units_last)
  have c: "processed (snd (units_done items opts env)) = n
              \<and> succeeded (snd (units_done items opts env))
                  + failed (snd (units_done items opts env)) = n"
    if "downloadScreens items opts env = (Returned, tr)" for tr
  proof -
    from downloadScreens_Returned [OF that] obtain st where
      st: "units_done items opts env = (None, st)"
      and all: "mset (map fst (completion env)) = mset items"
      by blast
    have "processed st = n"
      using units_done_processed [OF st all] by (simp add: n_def)
    moreover have "processed st = succeeded st + failed st"
      using units_done_counters [OF st] by (simp add: counters_ok_def)
    ultimately show ?thesis by (simp add: st)
  qed
  from a b c show ?thesis by blast
qed


theorem progress_counters_consistent_witness:
  "fst (downloadScreens [\<lparr> id36 = ''a1'', url = ''u1'', date = ''d1'' \<rparr>, \<lparr> id36 = ''b2'', url = ''u2'', date = ''d2'' \<rparr>]
      \<lparr> concurrency = 2, retryAttempts = 2, retryBaseDelayMs = 500, throttleDelayMs = 0 \<rparr>
      \<lparr> completion = [(\<lparr> id36 = ''b2'', url = ''u2'', date = ''d2'' \<rparr>, \<lparr> aborted_at_start = False, attempts = (\<lambda>j. Attempt (Response 200 None) False) \<rparr>),
                        (\<lparr> id36 = ''a1'', url = ''u1'', date = ''d1'' \<rparr>, \<lparr> aborted_at_start = False, attempts = (\<lambda>j. Attempt (Response 404 None) False) \<rparr>)],
         aborted_at_end = False, sink = Inr (Some 7) \<rparr>) = Returned
   \<and> processed (snd (units_done [\<lparr> id36 = ''a1'', url = ''u1'', date = ''d1'' \<rparr>, \<lparr> id36 = ''b2'', url = ''u2'', date = ''d2'' \<rparr>]
      \<lparr> concurrency = 2, retryAttempts = 2, retryBaseDelayMs = 500, throttleDelayMs = 0 \<rparr>
      \<lparr> completion = [(\<lparr> id36 = ''b2'', url = ''u2'', date = ''d2'' \<rparr>, \<lparr> aborted_at_start = False, attempts = (\<lambda>j. Attempt (Response 200 None) False) \<rparr>),
                        (\<lparr> id36 = ''a1'', url = ''u1'', date = ''d1'' \<rparr>, \<lparr> aborted_at_start = False, attempts = (\<lambda>j. Attempt (Response 404 None) False) \<rparr>)],
         aborted_at_end = False, sink = Inr (Some 7) \<rparr>)) = 2
   \<and> last (trace (snd (run_units 2
      \<lparr> concurrency = 2, retryAttempts = 2, retryBaseDelayMs = 500, throttleDelayMs = 0 \<rparr>
      [(\<lparr> id36 = ''b2'', url = ''u2'', date = ''d2'' \<rparr>, \<lparr> aborted_at_start = False, attempts = (\<lambda>j. Attempt (Response 200 None) False) \<rparr>)]
      (initial_state 2))))
     = Send (Progress \<lparr> progress_completed = 1, progress_total = 2,
                        progress_currentId = ''b2'', progress_succeeded = 1,
                        progress_failed = 0 \<rparr>)"
proof -
  let ?items = "[\<lparr> id36 = ''a1'', url = ''u1'', date = ''d1'' \<rparr>, \<lparr> id36 = ''b2'', url = ''u2'', date = ''d2'' \<rparr>]"
  let ?opts = "\<lparr> concurrency = 2, retryAttempts = 2, retryBaseDelayMs = 500, throttleDelayMs = 0 \<rparr>"
  let ?env = "\<lparr> completion = [(\<lparr> id36 = ''b2'', url = ''u2'', date = ''d2'' \<rparr>, \<lparr> aborted_at_start = False, attempts = (\<lambda>j. Attempt (Response 200 None) False) \<rparr>),
                        (\<lparr> id36 = ''a1'', url = ''u1'', date = ''d1'' \<rparr>, \<lparr> aborted_at_start = False, attempts = (\<lambda>j. Attempt (Response 404 None) False) \<rparr>)],
         aborted_at_end = False, sink = Inr (Some 7) \<rparr>"
  let ?first = "(\<lparr> id36 = ''b2'', url = ''u2'', date = ''d2'' \<rparr>, \<lparr> aborted_at_start = False, attempts = (\<lambda>j. Attempt (Response 200 None) False) \<rparr>)"
  have r: "fst (downloadScreens ?items ?opts ?env) = Returned"
    by (simp add: eval_defs)
  then have e: "downloadScreens ?items ?opts ?env
                  = (Returned, snd (downloadScreens ?items ?opts ?env))"
    by (simp add: prod_eq_iff)
  let ?n = "int (length ?items)"
  have u: "fst (run_units ?n ?opts ([] @ [?first]) (initial_state ?n)) = None"
    by (simp add: eval_defs)
  then have u': "run_units ?n ?opts ([] @ [?first]) (initial_state ?n)
                  = (None, snd (run_units ?n ?opts ([] @ [?first]) (initial_state ?n)))"
    by (simp add: prod_eq_iff)
  note t = progress_counters_consistent [where items = ?items and opts = ?opts and env = ?env]
  have c: "completion ?env = [] @ ?first # [(\<lparr> id36 = ''a1'', url = ''u1'', date = ''d1'' \<rparr>, \<lparr> aborted_at_start = False, attempts = (\<lambda>j. Attempt (Response 404 None) False) \<rparr>)]"
    by simp
  note t2 = t [THEN conjunct2, THEN conjunct1, rule_format, OF conjI, OF c u']
  note t3 = t [THEN conjunct2, THEN conjunct2, rule_format, OF e]
  have v: "processed (snd (run_units ?n ?opts ([] @ [?first]) (initial_state ?n))) = 1"
    "succeeded (snd (run_units ?n ?opts ([] @ [?first]) (initial_state ?n))) = 1"
    "failed (snd (run_units ?n ?opts ([] @ [?first]) (initial_state ?n))) = 0"
    by (simp_all add: eval_defs)
  show ?thesis
    using r t2 t3 unfolding v by simp
qed

lemma derive_settings_notice:
  "\<forall>e \<in> set (snd (derive_settings n conc throttle)). \<not> is_Done e"
  by (simp add: derive_settings_def Let_def)

lemma run_resolved:
  assumes "resolved \<noteq> []"
    and "given = Some resolved
         \<or> (given = None
            \<and> getAllScreens (collector renv) DEFAULT_BATCH_SIZE = Some (Inr resolved))"
  shows "\<exists>pre. (\<forall>e \<in> set pre. \<not> is_Done e)
           \<and> run opts given renv
               = Some (fst (run_download opts resolved (download renv)),
                       pre @ snd (run_download opts resolved (download renv)))"
  using assms(2)
proof
  assume "given = Some resolved"
  then have "run opts given renv
               = Some (fst (run_download opts resolved (download renv)),
                       [] @ snd (run_download opts resolved (download renv)))"
    using assms(1) by (simp add: run_def split: prod.splits)
  then show ?thesis by (intro exI [of _ "[]"]) simp
next
  assume "given = None
            \<and> getAllScreens (collector renv) DEFAULT_BATCH_SIZE = Some (Inr resolved)"
  then have "run opts given renv
               = Some (fst (run_download opts resolved (download renv)),
                       [Send (Status ''Collecting gallery metadata...'')]
                       @ snd (run_download opts resolved (download renv)))"
    using assms(1) by (simp add: run_def split: prod.splits)
  then show ?thesis
    by (intro exI [of _ "[Send (Status ''Collecting gallery metadata...'')]"]) simp
qed

text \<open>
  Claim C9 says that the done message carries \<open>total\<close> equal to the number of items,
  together with the \<open>succeeded\<close>, \<open>failed\<close> and \<open>processed\<close> counts. The code sends
  \<open>total: succeeded\<close>: in the first run below, on one item whose download fails, the done
  message has \<open>total = 0\<close> and \<open>processed = 1\<close>. And on an empty item list, the second
  run below, the done message has no \<open>processed\<close> and no \<open>succeeded\<close> field.
\<close>

theorem run_done_total_counterexample:
  "run \<lparr> concurrency = 2, retryAttempts = 3, retryBaseDelayMs = 500, throttleDelayMs = 0 \<rparr>
       (Some [\<lparr> id36 = ''a1'', url = ''u1'', date = ''d1'' \<rparr>])
       \<lparr> collector = \<lparr> server = (\<lambda>i p. Rejected AbortError), aborted_at = (\<lambda>i. False),
                       today = ''d0'' \<rparr>,
         download = \<lparr> completion =
                        [(\<lparr> id36 = ''a1'', url = ''u1'', date = ''d1'' \<rparr>,
                          \<lparr> aborted_at_start = False,
                            attempts = (\<lambda>j. Attempt (Response 403 (Some ''account_trouble''))
                                                False) \<rparr>)],
                      aborted_at_end = False, sink = Inr (Some 7) \<rparr> \<rparr>
   = Some (Returned,
       [Send (Start 1 2),
        Send (Status ''Downloading 1 screenshot(s)...''),
        Fetch ''u1'',
        Send (Log Warn ''Final failure for a1: Lightshot cannot serve a1: upstream returned account trouble (image missing on server).''),
        Send (Log Warn ''Giving up on a1 after 3 attempts.''),
        Send (Progress \<lparr> progress_completed = 1, progress_total = 1,
                           progress_currentId = ''a1'', progress_succeeded = 0,
                           progress_failed = 1 \<rparr>),
        Send (Status ''Packaging ZIP archive...''),
        Send (Done \<lparr> done_total = 0, done_failed = 1, done_downloadId = Some 7,
                      done_processed = Some 1, done_succeeded = Some 0 \<rparr>)])
   \<and> run \<lparr> concurrency = 2, retryAttempts = 3, retryBaseDelayMs = 500, throttleDelayMs = 0 \<rparr>
       (Some [])
       \<lparr> collector = \<lparr> server = (\<lambda>i p. Rejected AbortError), aborted_at = (\<lambda>i. False),
                       today = ''d0'' \<rparr>,
         download = \<lparr> completion = [], aborted_at_end = False, sink = Inr (Some 7) \<rparr> \<rparr>
     = Some (Returned,
       [Send (Status ''No screenshots found in your gallery.''),
        Send (Done \<lparr> done_total = 0, done_failed = 0, done_downloadId = None,
                      done_processed = None, done_succeeded = None \<rparr>)])"
  by (simp add: eval_defs)

lemma run_done_empty:
  assumes "given = Some []
         \<or> (given = None
            \<and> getAllScreens (collector renv) DEFAULT_BATCH_SIZE = Some (Inr []))"
  shows "\<exists>pre. (\<forall>e \<in> set pre. \<not> is_Done e)
           \<and> run opts given renv
               = Some (Returned,
                       pre @ [Send (Status ''No screenshots found in your gallery.''),
                              Send (Done \<lparr> done_total = 0, done_failed = 0, done_downloadId = None,
                                  done_processed = None, done_succeeded = None \<rparr>)])"
  using assms
proof
  assume "given = Some []"
  then have "run opts given renv
               = Some (Returned,
                       [] @ [Send (Status ''No screenshots found in your gallery.''),
                             Send (Done \<lparr> done_total = 0, done_failed = 0, done_downloadId = None,
                                  done_processed = None, done_succeeded = None \<rparr>)])"
    by (simp add: run_def)
  then show ?thesis by (intro exI [of _ "[]"]) simp
next
  assume "given = None
            \<and> getAllScreens (collector renv) DEFAULT_BATCH_SIZE = Some (Inr [])"
  then have "run opts given renv
               = Some (Returned,
                       [Send (Status ''Collecting gallery metadata...'')]
                       @ [Send (Status ''No screenshots found in your gallery.''),
                          Send (Done \<lparr> done_total = 0, done_failed = 0, done_downloadId = None,
                                  done_processed = None, done_succeeded = None \<rparr>)])"
    by (simp add: run_def)
  then show ?thesis
    by (intro exI [of _ "[Send (Status ''Collecting gallery metadata...'')]"]) simp
qed

lemma run_done_nonempty:
  fixes opts :: RunSettings and resolved :: "ScreenMeta list" and renv :: run_env
    and given :: "ScreenMeta list option"
  defines "l \<equiv> fst (derive_settings (int (length resolved)) (concurrency opts)
                       (throttleDelayMs opts))"
  defines "st \<equiv> snd (units_done resolved (effective_options opts l) (download renv))"
  assumes "resolved \<noteq> []"
    and "given = Some resolved
         \<or> (given = None
            \<and> getAllScreens (collector renv) DEFAULT_BATCH_SIZE = Some (Inr resolved))"
    and "downloadScreens resolved (effective_options opts l) (download renv) = (Returned, tr0)"
    and "sink (download renv) = Inr downloadId"
  shows "\<exists>tr. run opts given renv = Some (Returned, tr)
            \<and> tr \<noteq> []
            \<and> last tr = Send (Done \<lparr> done_total = succeeded st, done_failed = failed st,
                                      done_downloadId = downloadId,
                                      done_processed = Some (int (length resolved)),
                                      done_succeeded = Some (succeeded st) \<rparr>)
            \<and> length (filter is_Done tr) = 1
            \<and> succeeded st + failed st = int (length resolved)"
proof -
  from downloadScreens_Returned [OF assms(5)] obtain st' where
    st': "units_done resolved (effective_options opts l) (download renv) = (None, st')"
    and all: "mset (map fst (completion (download renv))) = mset resolved"
    and tr0: "tr0 = trace st' @ [Send (Status ''Packaging ZIP archive...''),
                Send (Done \<lparr> done_total = succeeded st', done_failed = failed st',
                             done_downloadId = downloadId,
                             done_processed = Some (processed st'),
                             done_succeeded = Some (succeeded st') \<rparr>)]"
    using assms(6) by auto
  have [simp]: "st' = st" by (simp add: st_def st')
  have ok: "counters_ok st"
    using units_done_counters [OF st'] by simp
  have p: "processed st = int (length resolved)"
    using units_done_processed [OF st' all] by simp
  have sum: "succeeded st + failed st = int (length resolved)"
    using ok p by (simp add: counters_ok_def)
  obtain l' notice where ds: "derive_settings (int (length resolved)) (concurrency opts)
                       (throttleDelayMs opts) = (l', notice)"
    by (cases "derive_settings (int (length resolved)) (concurrency opts)
                       (throttleDelayMs opts)")
  then have [simp]: "l' = l" by (simp add: l_def)
  have notice: "\<forall>e \<in> set notice. \<not> is_Done e"
    using derive_settings_notice [of "int (length resolved)" "concurrency opts"
        "throttleDelayMs opts"] ds by simp
  define header where "header = notice
               @ (if effectiveThrottle l > 0
                  then [Send (Log Info (throttle_message (effectiveThrottle l)))] else [])
               @ [Send (Start (int (length resolved)) (effectiveConcurrency l))]"
  have header: "filter is_Done header = []"
    using notice by (auto simp: header_def filter_empty_conv)
  have quiet: "filter is_Done (trace st) = []"
    using ok by (auto simp: counters_ok_def filter_empty_conv)
  have rd: "run_download opts resolved (download renv) = (Returned, header @ tr0)"
    using ds assms(5) by (simp add: run_download_def after_download_def header_def)
  from run_resolved [OF assms(3,4), of opts] obtain pre where
    pre: "\<forall>e \<in> set pre. \<not> is_Done e"
    and run: "run opts given renv = Some (Returned, pre @ header @ tr0)"
    by (auto simp: rd)
  have pre': "filter is_Done pre = []"
    using pre by (auto simp: filter_empty_conv)
  have "pre @ header @ tr0 \<noteq> []"
    by (simp add: tr0)
  moreover have "last (pre @ header @ tr0) = Send (Done \<lparr> done_total = succeeded st,
                                      done_failed = failed st,
                                      done_downloadId = downloadId,
                                      done_processed = Some (int (length resolved)),
                                      done_succeeded = Some (succeeded st) \<rparr>)"
    by (simp add: tr0 p)
  moreover have "length (filter is_Done (pre @ header @ tr0)) = 1"
    by (simp add: tr0 header quiet pre')
  ultimately show ?thesis
    using sum run by blast
qed

text \<open>
  Claim C9, amended. For every run that completes normally (the item list is empty, or
  \<open>downloadScreens\<close> returns and the download sink accepts the archive), exactly one done
  message is sent and it is the last message of the run. On an empty item list it carries
  \<open>total = 0\<close> and \<open>failed = 0\<close> and no \<open>processed\<close> or \<open>succeeded\<close> field. On a non-empty
  item list it carries \<open>total\<close> equal to the succeeded count, together with the
  \<open>succeeded\<close>, \<open>failed\<close> and \<open>processed\<close> counts, where \<open>processed\<close> is the number of items
  of the run and \<open>succeeded + failed = processed\<close>.
\<close>

theorem run_done_event:
  fixes opts :: RunSettings and resolved :: "ScreenMeta list" and renv :: run_env
    and given :: "ScreenMeta list option"
  defines "l \<equiv> fst (derive_settings (int (length resolved)) (concurrency opts)
                       (throttleDelayMs opts))"
  defines "st \<equiv> snd (units_done resolved (effective_options opts l) (download renv))"
  assumes "given = Some resolved
         \<or> (given = None
            \<and> getAllScreens (collector renv) DEFAULT_BATCH_SIZE = Some (Inr resolved))"
    and "resolved = []
         \<or> (downloadScreens resolved (effective_options opts l) (download renv)
               = (Returned, tr0)
            \<and> sink (download renv) = Inr downloadId)"
  shows "\<exists>tr. run opts given renv = Some (Returned, tr)
            \<and> tr \<noteq> []
            \<and> length (filter is_Done tr) = 1
            \<and> last tr = Send (Done
                  (if resolved = [] then
                     \<lparr> done_total = 0, done_failed = 0, done_downloadId = None,
                       done_processed = None, done_succeeded = None \<rparr>
                   else
                     \<lparr> done_total = succeeded st, done_failed = failed st,
                       done_downloadId = downloadId,
                       done_processed = Some (int (length resolved)),
                       done_succeeded = Some (succeeded st) \<rparr>))
            \<and> (resolved \<noteq> [] \<longrightarrow> succeeded st + failed st = int (length resolved))"
proof (cases "resolved = []")
  case True
  from run_done_empty [of given renv opts] assms(3) True obtain pre where
    pre: "\<forall>e \<in> set pre. \<not> is_Done e"
    and run: "run opts given renv
               = Some (Returned,
                       pre @ [Send (Status ''No screenshots found in your gallery.''),
                              Send (Done \<lparr> done_total = 0, done_failed = 0, done_downloadId = None,
                                  done_processed = None, done_succeeded = None \<rparr>)])"
    by auto
  have "filter is_Done pre = []"
    using pre by (auto simp: filter_empty_conv)
  then show ?thesis
    using True run by simp
next
  case False
  with assms(4) have dl: "downloadScreens resolved (effective_options opts l) (download renv)
               = (Returned, tr0)"
    and sk: "sink (download renv) = Inr downloadId"
    by simp_all
  from run_done_nonempty [OF False assms(3) dl [unfolded l_def] sk]
  show ?thesis
    using False unfolding st_def l_def by auto
qed

theorem run_done_event_witness:
  "(\<exists>tr. run \<lparr> concurrency = 2, retryAttempts = 2, retryBaseDelayMs = 500, throttleDelayMs = 0 \<rparr>
          (Some [\<lparr> id36 = ''a1'', url = ''u1'', date = ''d1'' \<rparr>, \<lparr> id36 = ''b2'', url = ''u2'', date = ''d2'' \<rparr>])
          \<lparr> collector = \<lparr> server = (\<lambda>i p. Rejected AbortError), aborted_at = (\<lambda>i. False),
                     today = ''d0'' \<rparr>,
       download = \<lparr> completion = [(\<lparr> id36 = ''b2'', url = ''u2'', date = ''d2'' \<rparr>, \<lparr> aborted_at_start = False, attempts = (\<lambda>j. Attempt (Response 200 None) False) \<rparr>),
                        (\<lparr> id36 = ''a1'', url = ''u1'', date = ''d1'' \<rparr>, \<lparr> aborted_at_start = False, attempts = (\<lambda>j. Attempt (Response 404 None) False) \<rparr>)],
         aborted_at_end = False, sink = Inr (Some 7) \<rparr> \<rparr>
        = Some (Returned, tr)
      \<and> tr \<noteq> []
      \<and> length (filter is_Done tr) = 1
      \<and> last tr = Send (Done \<lparr> done_total = 1, done_failed = 1, done_downloadId = Some 7,
                                done_processed = Some 2, done_succeeded = Some 1 \<rparr>))
   \<and> (\<exists>tr. run \<lparr> concurrency = 2, retryAttempts = 2, retryBaseDelayMs = 500, throttleDelayMs = 0 \<rparr>
          (Some [])
          \<lparr> collector = \<lparr> server = (\<lambda>i p. Rejected AbortError), aborted_at = (\<lambda>i. False),
                     today = ''d0'' \<rparr>,
       download = \<lparr> completion = [(\<lparr> id36 = ''b2'', url = ''u2'', date = ''d2'' \<rparr>, \<lparr> aborted_at_start = False, attempts = (\<lambda>j. Attempt (Response 200 None) False) \<rparr>),
                        (\<lparr> id36 = ''a1'', url = ''u1'', date = ''d1'' \<rparr>, \<lparr> aborted_at_start = False, attempts = (\<lambda>j. Attempt (Response 404 None) False) \<rparr>)],
         aborted_at_end = False, sink = Inr (Some 7) \<rparr> \<rparr>
        = Some (Returned, tr)
      \<and> tr \<noteq> []
      \<and> length (filter is_Done tr) = 1
      \<and> last tr = Send (Done \<lparr> done_total = 0, done_failed = 0, done_downloadId = None,
                                done_processed = None, done_succeeded = None \<rparr>))"
proof -
  let ?items = "[\<lparr> id36 = ''a1'', url = ''u1'', date = ''d1'' \<rparr>, \<lparr> id36 = ''b2'', url = ''u2'', date = ''d2'' \<rparr>]"
  let ?opts = "\<lparr> concurrency = 2, retryAttempts = 2, retryBaseDelayMs = 500, throttleDelayMs = 0 \<rparr>"
  let ?renv = "\<lparr> collector = \<lparr> server = (\<lambda>i p. Rejected AbortError), aborted_at = (\<lambda>i. False),
                     today = ''d0'' \<rparr>,
       download = \<lparr> completion = [(\<lparr> id36 = ''b2'', url = ''u2'', date = ''d2'' \<rparr>, \<lparr> aborted_at_start = False, attempts = (\<lambda>j. Attempt (Response 200 None) False) \<rparr>),
                        (\<lparr> id36 = ''a1'', url = ''u1'', date = ''d1'' \<rparr>, \<lparr> aborted_at_start = False, attempts = (\<lambda>j. Attempt (Response 404 None) False) \<rparr>)],
         aborted_at_end = False, sink = Inr (Some 7) \<rparr> \<rparr>"
  let ?l = "fst (derive_settings (int (length ?items)) (concurrency ?opts)
                   (throttleDelayMs ?opts))"
  have r: "fst (downloadScreens ?items (effective_options ?opts ?l) (download ?renv)) = Returned"
    by (simp add: eval_defs)
  then have e: "?items = [] \<or>
      (downloadScreens ?items (effective_options ?opts ?l) (download ?renv)
         = (Returned, snd (downloadScreens ?items (effective_options ?opts ?l) (download ?renv)))
       \<and> sink (download ?renv) = Inr (Some 7))"
    by (simp add: prod_eq_iff)
  have g: "Some ?items = Some ?items
         \<or> (Some ?items = None
            \<and> getAllScreens (collector ?renv) DEFAULT_BATCH_SIZE = Some (Inr ?items))"
    by simp
  have s: "succeeded (snd (units_done ?items (effective_options ?opts ?l) (download ?renv))) = 1"
    "failed (snd (units_done ?items (effective_options ?opts ?l) (download ?renv))) = 1"
    by (simp_all add: eval_defs)
  have full: "\<exists>tr. run ?opts (Some ?items) ?renv = Some (Returned, tr)
      \<and> tr \<noteq> []
      \<and> length (filter is_Done tr) = 1
      \<and> last tr = Send (Done \<lparr> done_total = 1, done_failed = 1, done_downloadId = Some 7,
                                done_processed = Some 2, done_succeeded = Some 1 \<rparr>)"
    using run_done_event [OF g e] unfolding s by simp
  have g0: "Some [] = Some ([] :: ScreenMeta list)
         \<or> (Some [] = None
            \<and> getAllScreens (collector ?renv) DEFAULT_BATCH_SIZE = Some (Inr []))"
    by simp
  have e0: "([] :: ScreenMeta list) = [] \<or>
      (downloadScreens [] (effective_options ?opts
           (fst (derive_settings (int (length ([] :: ScreenMeta list))) (concurrency ?opts)
                   (throttleDelayMs ?opts)))) (download ?renv)
         = (Returned, [])
       \<and> sink (download ?renv) = Inr None)"
    by simp
  have empty: "\<exists>tr. run ?opts (Some []) ?renv = Some (Returned, tr)
      \<and> tr \<noteq> []
      \<and> length (filter is_Done tr) = 1
      \<and> last tr = Send (Done \<lparr> done_total = 0, done_failed = 0, done_downloadId = None,
                                done_processed = None, done_succeeded = None \<rparr>)"
    using run_done_event [OF g0 e0] by simp
  from full empty show ?thesis by blast
qed






end
